theory Spec2Isabelle
  imports Main "HOL-Library.Multiset"
begin

section \<open>The Option Model (types/queryBuilder)\<close>

text \<open>
  The views \<^verbatim>\<open>LogsQueryBuilder.tsx\<close> and \<^verbatim>\<open>TableQueryBuilder.tsx\<close> import their
  data types from \<^verbatim>\<open>types/queryBuilder\<close>, whose declarations are not among the
  sources. The types below carry the members the two views read and write; every
  optional member (\<^verbatim>\<open>columns?\<close>, \<^verbatim>\<open>limit?\<close>, ...) is an \<open>option\<close>, with \<open>None\<close> for
  \<^verbatim>\<open>undefined\<close>.
\<close>

text \<open>
  Modelled from the spec: the enum \<^verbatim>\<open>ColumnHint\<close> is declared in the missing
  \<^verbatim>\<open>types/queryBuilder\<close>. The views name three members; the spec speaks of hints
  "such as Time/LogLevel/LogMessage", so any further member is \<open>OtherHint\<close>.
\<close>

datatype ColumnHint = Time | LogLevel | LogMessage | OtherHint string

text \<open>
  Modelled from the spec: \<^verbatim>\<open>SelectedColumn\<close> is "(source column name, optional
  display alias, optional semantic hint tag)".
\<close>

record SelectedColumn =
  name :: string
  alias_name :: "string option"
  hint :: "ColumnHint option"

text \<open>
  Modelled from the spec: \<^verbatim>\<open>AggregateColumn\<close> is "function name + target column +
  alias"; \<^verbatim>\<open>Filter\<close> is "column reference, operator, operand(s),
  boolean-combinator with previous filter"; \<^verbatim>\<open>OrderBy\<close> is "(column or aggregate
  reference, direction)".
\<close>

datatype AggregateColumn = AggregateColumn string string "string option"

datatype Filter = Filter string string "string list" string

datatype OrderByDirection = ASC | DESC

datatype OrderBy = OrderBy string OrderByDirection

text \<open>
  Modelled from the spec: \<^verbatim>\<open>BuilderMode\<close> is "one of {List, Aggregate,
  Log-specialized variants}"; the Table view names \<open>List\<close> and \<open>Aggregate\<close>.
\<close>

datatype BuilderMode = List | Aggregate | OtherMode string

record QueryBuilderMeta =
  otelEnabled :: "bool option"
  otelVersion :: "string option"

text \<open>
  \<open>OptionFields\<close> are the members a view hands to \<^verbatim>\<open>setOptions\<close> (a
  \<^verbatim>\<open>Partial<QueryBuilderOptions>\<close>: a member that is \<open>None\<close> is not in the payload);
  \<open>QueryBuilderOptions\<close> adds the members the views only read.
\<close>

record OptionFields =
  mode :: "BuilderMode option"
  columns :: "SelectedColumn list option"
  aggregates :: "AggregateColumn list option"
  groupBy :: "string list option"
  filters :: "Filter list option"
  orderBy :: "OrderBy list option"
  limit :: "int option"

record QueryBuilderOptions = OptionFields +
  database :: string
  table :: string
  meta :: "QueryBuilderMeta option"

text \<open>
  JavaScript's \<^verbatim>\<open>x || d\<close> on an optional member: \<^verbatim>\<open>undefined\<close> gives the default.
  A present array is always truthy; a present \<^verbatim>\<open>false\<close>, \<^verbatim>\<open>''\<close> or \<^verbatim>\<open>0\<close> is falsy and
  gives the default, which in every use below is the same value.
\<close>

definition or_default :: "'a option \<Rightarrow> 'a \<Rightarrow> 'a" where
  "or_default x d = (case x of None \<Rightarrow> d | Some v \<Rightarrow> v)"

definition or_zero :: "int option \<Rightarrow> int" where
  "or_zero x = (case x of None \<Rightarrow> 0 | Some n \<Rightarrow> if n = 0 then 0 else n)"

text \<open>
  Modelled from the spec: \<^verbatim>\<open>getColumnByHint\<close> (data/sqlGenerator) is missing. It
  gives the column of the model carrying the hint, \<^verbatim>\<open>undefined\<close> when none does
  (the first one in sequence order, should several carry it).
\<close>

definition getColumnByHint :: "QueryBuilderOptions \<Rightarrow> ColumnHint \<Rightarrow> SelectedColumn option" where
  "getColumnByHint builderOptions h =
     (case columns builderOptions of
        None \<Rightarrow> None
      | Some cs \<Rightarrow> find (\<lambda>c. hint c = Some h) cs)"

text \<open>
  Modelled from the spec: the reducer behind \<^verbatim>\<open>setOptions\<close>
  (hooks/useBuilderOptionsState) is missing. "Commit next Option Model": every
  member of the payload replaces that member of the model, the others stay.
\<close>

definition setOptions :: "OptionFields \<Rightarrow> QueryBuilderOptions \<Rightarrow> QueryBuilderOptions" where
  "setOptions payload state = state
     \<lparr> mode := (case mode payload of None \<Rightarrow> mode state | Some v \<Rightarrow> Some v),
       columns := (case columns payload of None \<Rightarrow> columns state | Some v \<Rightarrow> Some v),
       aggregates := (case aggregates payload of None \<Rightarrow> aggregates state | Some v \<Rightarrow> Some v),
       groupBy := (case groupBy payload of None \<Rightarrow> groupBy state | Some v \<Rightarrow> Some v),
       filters := (case filters payload of None \<Rightarrow> filters state | Some v \<Rightarrow> Some v),
       orderBy := (case orderBy payload of None \<Rightarrow> orderBy state | Some v \<Rightarrow> Some v),
       limit := (case limit payload of None \<Rightarrow> limit state | Some v \<Rightarrow> Some v) \<rparr>"

section \<open>The Change Reconciler (hooks/useBuilderOptionChanges)\<close>

text \<open>
  Modelled from the spec: the hook \<^verbatim>\<open>useBuilderOptionChanges\<close> is missing. It
  "maintains a working copy of current state (supplied by the caller each render)
  and a queue of named partial updates"; the setter calls made before the system
  settles are merged, in call order, over that snapshot, and the mapping function
  is invoked once with the merged state. \<open>app\<close> writes one named update into a
  state; with no setter call there is no commit (\<open>None\<close>).
\<close>

definition reconcile :: "('u \<Rightarrow> 's \<Rightarrow> 's) \<Rightarrow> 's \<Rightarrow> 'u list \<Rightarrow> 's" where
  "reconcile app prevState queued = foldl (\<lambda>s u. app u s) prevState queued"

definition useBuilderOptionChanges ::
  "('s \<Rightarrow> 'p) \<Rightarrow> ('u \<Rightarrow> 's \<Rightarrow> 's) \<Rightarrow> 's \<Rightarrow> 'u list \<Rightarrow> 'p option" where
  "useBuilderOptionChanges onChange app prevState queued =
     (if queued = [] then None else Some (onChange (reconcile app prevState queued)))"

text \<open>The value of one member of a builder state, whatever its type.\<close>

datatype FieldValue =
    VBool bool
  | VString string
  | VColumns "SelectedColumn list"
  | VColumn "SelectedColumn option"
  | VAggregates "AggregateColumn list"
  | VGroupBy "string list"
  | VOrderBy "OrderBy list"
  | VNumber int
  | VFilters "Filter list"

text \<open>
  The last value a batch writes to the member \<open>k\<close>, if it writes one: \<open>key_of\<close>
  and \<open>value_of\<close> read the member and the value of one queued update.
\<close>

fun last_written :: "('u \<Rightarrow> 'k) \<Rightarrow> ('u \<Rightarrow> FieldValue) \<Rightarrow> 'k \<Rightarrow> 'u list \<Rightarrow> FieldValue option" where
  "last_written key_of value_of k [] = None"
| "last_written key_of value_of k (u # us) =
     (case last_written key_of value_of k us of
        Some v \<Rightarrow> Some v
      | None \<Rightarrow> if key_of u = k then Some (value_of u) else None)"

section \<open>The Logs builder (LogsQueryBuilder.tsx)\<close>

record LogsQueryBuilderState =
  otelEnabled :: bool
  otelVersion :: string
  selectedColumns :: "SelectedColumn list"
  timeColumn :: "SelectedColumn option"
  logLevelColumn :: "SelectedColumn option"
  messageColumn :: "SelectedColumn option"
  orderBy :: "OrderBy list"
  limit :: int
  filters :: "Filter list"

text \<open>The filter of lines 50-55: columns that do not have their own box.\<close>

definition noOwnBox :: "SelectedColumn \<Rightarrow> bool" where
  "noOwnBox c = (hint c \<noteq> Some Time \<and> hint c \<noteq> Some LogLevel \<and> hint c \<noteq> Some LogMessage)"

text \<open>\<^verbatim>\<open>builderState\<close>, lines 44-60.\<close>

definition logs_builderState :: "QueryBuilderOptions \<Rightarrow> LogsQueryBuilderState" where
  "logs_builderState builderOptions =
     \<lparr> otelEnabled =
         (case meta builderOptions of
            None \<Rightarrow> False
          | Some m \<Rightarrow> or_default (QueryBuilderMeta.otelEnabled m) False),
       otelVersion =
         (case meta builderOptions of
            None \<Rightarrow> ''''
          | Some m \<Rightarrow> or_default (QueryBuilderMeta.otelVersion m) ''''),
       selectedColumns =
         (case columns builderOptions of
            None \<Rightarrow> []
          | Some cs \<Rightarrow> filter noOwnBox cs),
       timeColumn = getColumnByHint builderOptions Time,
       logLevelColumn = getColumnByHint builderOptions LogLevel,
       messageColumn = getColumnByHint builderOptions LogMessage,
       orderBy = or_default (OptionFields.orderBy builderOptions) [],
       limit = or_zero (OptionFields.limit builderOptions),
       filters = or_default (OptionFields.filters builderOptions) [] \<rparr>"

text \<open>
  The mapping handed to the hook, lines 63-81: \<^verbatim>\<open>nextColumns\<close> is a copy of the
  selected columns with each filled box pushed after it; the payload of
  \<^verbatim>\<open>setOptions\<close> has the four members \<^verbatim>\<open>columns\<close>, \<^verbatim>\<open>filters\<close>, \<^verbatim>\<open>orderBy\<close>, \<^verbatim>\<open>limit\<close>.
\<close>

definition pushed :: "SelectedColumn option \<Rightarrow> SelectedColumn list" where
  "pushed box = (case box of None \<Rightarrow> [] | Some c \<Rightarrow> [c])"

definition logs_nextColumns :: "LogsQueryBuilderState \<Rightarrow> SelectedColumn list" where
  "logs_nextColumns next =
     selectedColumns next @ pushed (timeColumn next) @ pushed (logLevelColumn next)
       @ pushed (messageColumn next)"

definition logs_onChange :: "LogsQueryBuilderState \<Rightarrow> OptionFields" where
  "logs_onChange next =
     \<lparr> mode = None,
       columns = Some (logs_nextColumns next),
       aggregates = None,
       groupBy = None,
       filters = Some (LogsQueryBuilderState.filters next),
       orderBy = Some (LogsQueryBuilderState.orderBy next),
       limit = Some (LogsQueryBuilderState.limit next) \<rparr>"

text \<open>
  One call of a setter \<^verbatim>\<open>onOptionChange(key)(value)\<close>, with \<^verbatim>\<open>key\<close> a member of
  \<^verbatim>\<open>LogsQueryBuilderState\<close>. Modelled from the spec: the setters are made by the
  missing hook. A setter writes the value it is called with into its member; "setter
  called with a value violating a local constraint (e.g., negative limit): clamp at the
  boundary (limit floors at 0) rather than reject". \<open>logs_value\<close> is the value a call
  writes, \<open>logs_apply\<close> writes it.
\<close>

definition floor_limit :: "int \<Rightarrow> int" where
  "floor_limit v = (if v < 0 then 0 else v)"

datatype LogsKey =
    K_otelEnabled | K_otelVersion | K_selectedColumns | K_timeColumn | K_logLevelColumn
  | K_messageColumn | K_orderBy | K_limit | K_filters

datatype LogsChange =
    Set_otelEnabled bool
  | Set_otelVersion string
  | Set_selectedColumns "SelectedColumn list"
  | Set_timeColumn "SelectedColumn option"
  | Set_logLevelColumn "SelectedColumn option"
  | Set_messageColumn "SelectedColumn option"
  | Set_orderBy "OrderBy list"
  | Set_limit int
  | Set_filters "Filter list"

fun logs_key :: "LogsChange \<Rightarrow> LogsKey" where
  "logs_key (Set_otelEnabled v) = K_otelEnabled"
| "logs_key (Set_otelVersion v) = K_otelVersion"
| "logs_key (Set_selectedColumns v) = K_selectedColumns"
| "logs_key (Set_timeColumn v) = K_timeColumn"
| "logs_key (Set_logLevelColumn v) = K_logLevelColumn"
| "logs_key (Set_messageColumn v) = K_messageColumn"
| "logs_key (Set_orderBy v) = K_orderBy"
| "logs_key (Set_limit v) = K_limit"
| "logs_key (Set_filters v) = K_filters"

fun logs_value :: "LogsChange \<Rightarrow> FieldValue" where
  "logs_value (Set_otelEnabled v) = VBool v"
| "logs_value (Set_otelVersion v) = VString v"
| "logs_value (Set_selectedColumns v) = VColumns v"
| "logs_value (Set_timeColumn v) = VColumn v"
| "logs_value (Set_logLevelColumn v) = VColumn v"
| "logs_value (Set_messageColumn v) = VColumn v"
| "logs_value (Set_orderBy v) = VOrderBy v"
| "logs_value (Set_limit v) = VNumber (floor_limit v)"
| "logs_value (Set_filters v) = VFilters v"

fun logs_apply :: "LogsChange \<Rightarrow> LogsQueryBuilderState \<Rightarrow> LogsQueryBuilderState" where
  "logs_apply (Set_otelEnabled v) s = s\<lparr> LogsQueryBuilderState.otelEnabled := v \<rparr>"
| "logs_apply (Set_otelVersion v) s = s\<lparr> LogsQueryBuilderState.otelVersion := v \<rparr>"
| "logs_apply (Set_selectedColumns v) s = s\<lparr> selectedColumns := v \<rparr>"
| "logs_apply (Set_timeColumn v) s = s\<lparr> timeColumn := v \<rparr>"
| "logs_apply (Set_logLevelColumn v) s = s\<lparr> logLevelColumn := v \<rparr>"
| "logs_apply (Set_messageColumn v) s = s\<lparr> messageColumn := v \<rparr>"
| "logs_apply (Set_orderBy v) s = s\<lparr> LogsQueryBuilderState.orderBy := v \<rparr>"
| "logs_apply (Set_limit v) s = s\<lparr> LogsQueryBuilderState.limit := floor_limit v \<rparr>"
| "logs_apply (Set_filters v) s = s\<lparr> LogsQueryBuilderState.filters := v \<rparr>"

fun logs_get :: "LogsKey \<Rightarrow> LogsQueryBuilderState \<Rightarrow> FieldValue" where
  "logs_get K_otelEnabled s = VBool (LogsQueryBuilderState.otelEnabled s)"
| "logs_get K_otelVersion s = VString (LogsQueryBuilderState.otelVersion s)"
| "logs_get K_selectedColumns s = VColumns (selectedColumns s)"
| "logs_get K_timeColumn s = VColumn (timeColumn s)"
| "logs_get K_logLevelColumn s = VColumn (logLevelColumn s)"
| "logs_get K_messageColumn s = VColumn (messageColumn s)"
| "logs_get K_orderBy s = VOrderBy (LogsQueryBuilderState.orderBy s)"
| "logs_get K_limit s = VNumber (LogsQueryBuilderState.limit s)"
| "logs_get K_filters s = VFilters (LogsQueryBuilderState.filters s)"

text \<open>
  \<^verbatim>\<open>onOptionChange\<close> of the Logs builder: the setter calls of one batch against
  the state of the current render, committed through the mapping.
\<close>

definition logs_onOptionChange :: "QueryBuilderOptions \<Rightarrow> LogsChange list \<Rightarrow> OptionFields option" where
  "logs_onOptionChange builderOptions queued =
     useBuilderOptionChanges logs_onChange logs_apply (logs_builderState builderOptions) queued"

text \<open>The merged state of a batch: what the hook hands to the mapping.\<close>

definition logs_merged :: "QueryBuilderOptions \<Rightarrow> LogsChange list \<Rightarrow> LogsQueryBuilderState" where
  "logs_merged builderOptions queued = reconcile logs_apply (logs_builderState builderOptions) queued"

text \<open>The Option Model after the batch: the payload, if any, through the reducer.\<close>

definition logs_commit :: "QueryBuilderOptions \<Rightarrow> LogsChange list \<Rightarrow> QueryBuilderOptions" where
  "logs_commit builderOptions queued =
     (case logs_onOptionChange builderOptions queued of
        None \<Rightarrow> builderOptions
      | Some payload \<Rightarrow> setOptions payload builderOptions)"

text \<open>How many columns of a sequence carry the hint \<open>h\<close>.\<close>

definition hinted :: "ColumnHint \<Rightarrow> SelectedColumn list \<Rightarrow> nat" where
  "hinted h cs = length (filter (\<lambda>c. hint c = Some h) cs)"

text \<open>No two entries of a sequence carry the same hint.\<close>

definition hintsUnique :: "SelectedColumn list \<Rightarrow> bool" where
  "hintsUnique cs = distinct (List.map_filter hint cs)"

section \<open>The Table builder (TableQueryBuilder.tsx)\<close>

record TableQueryBuilderState =
  selectedColumns :: "SelectedColumn list"
  aggregates :: "AggregateColumn list"
  groupBy :: "string list"
  orderBy :: "OrderBy list"
  limit :: int
  filters :: "Filter list"

text \<open>
  Line 35: the initial value of \<^verbatim>\<open>isAggregateMode\<close>,
  \<^verbatim>\<open>(builderOptions.aggregates?.length || 0) > 0\<close>.
\<close>

definition isAggregateMode_initial :: "QueryBuilderOptions \<Rightarrow> bool" where
  "isAggregateMode_initial builderOptions =
     ((case OptionFields.aggregates builderOptions of
         None \<Rightarrow> 0
       | Some a \<Rightarrow> if int (length a) = 0 then 0 else int (length a)) > 0)"

text \<open>\<^verbatim>\<open>builderState\<close>, lines 36-43.\<close>

definition table_builderState :: "QueryBuilderOptions \<Rightarrow> TableQueryBuilderState" where
  "table_builderState builderOptions =
     \<lparr> selectedColumns = or_default (columns builderOptions) [],
       aggregates = or_default (OptionFields.aggregates builderOptions) [],
       groupBy = or_default (OptionFields.groupBy builderOptions) [],
       orderBy = or_default (OptionFields.orderBy builderOptions) [],
       limit = or_zero (OptionFields.limit builderOptions),
       filters = or_default (OptionFields.filters builderOptions) [] \<rparr>"

text \<open>The mapping handed to the hook, lines 45-55; it closes over \<^verbatim>\<open>isAggregateMode\<close>.\<close>

definition table_onChange :: "bool \<Rightarrow> TableQueryBuilderState \<Rightarrow> OptionFields" where
  "table_onChange isAggregateMode next =
     \<lparr> mode = Some (if isAggregateMode then Aggregate else List),
       columns = Some (selectedColumns next),
       aggregates = Some (if isAggregateMode then aggregates next else []),
       groupBy = Some (if isAggregateMode then groupBy next else []),
       filters = Some (filters next),
       orderBy = Some (orderBy next),
       limit = Some (limit next) \<rparr>"

datatype TableKey =
    T_selectedColumns | T_aggregates | T_groupBy | T_orderBy | T_limit | T_filters

datatype TableChange =
    Put_selectedColumns "SelectedColumn list"
  | Put_aggregates "AggregateColumn list"
  | Put_groupBy "string list"
  | Put_orderBy "OrderBy list"
  | Put_limit int
  | Put_filters "Filter list"

fun table_key :: "TableChange \<Rightarrow> TableKey" where
  "table_key (Put_selectedColumns v) = T_selectedColumns"
| "table_key (Put_aggregates v) = T_aggregates"
| "table_key (Put_groupBy v) = T_groupBy"
| "table_key (Put_orderBy v) = T_orderBy"
| "table_key (Put_limit v) = T_limit"
| "table_key (Put_filters v) = T_filters"

fun table_value :: "TableChange \<Rightarrow> FieldValue" where
  "table_value (Put_selectedColumns v) = VColumns v"
| "table_value (Put_aggregates v) = VAggregates v"
| "table_value (Put_groupBy v) = VGroupBy v"
| "table_value (Put_orderBy v) = VOrderBy v"
| "table_value (Put_limit v) = VNumber (floor_limit v)"
| "table_value (Put_filters v) = VFilters v"

fun table_apply :: "TableChange \<Rightarrow> TableQueryBuilderState \<Rightarrow> TableQueryBuilderState" where
  "table_apply (Put_selectedColumns v) s = s\<lparr> selectedColumns := v \<rparr>"
| "table_apply (Put_aggregates v) s = s\<lparr> aggregates := v \<rparr>"
| "table_apply (Put_groupBy v) s = s\<lparr> groupBy := v \<rparr>"
| "table_apply (Put_orderBy v) s = s\<lparr> orderBy := v \<rparr>"
| "table_apply (Put_limit v) s = s\<lparr> limit := floor_limit v \<rparr>"
| "table_apply (Put_filters v) s = s\<lparr> filters := v \<rparr>"

fun table_get :: "TableKey \<Rightarrow> TableQueryBuilderState \<Rightarrow> FieldValue" where
  "table_get T_selectedColumns s = VColumns (selectedColumns s)"
| "table_get T_aggregates s = VAggregates (aggregates s)"
| "table_get T_groupBy s = VGroupBy (groupBy s)"
| "table_get T_orderBy s = VOrderBy (orderBy s)"
| "table_get T_limit s = VNumber (limit s)"
| "table_get T_filters s = VFilters (filters s)"

text \<open>
  The component: the React state \<^verbatim>\<open>isAggregateMode\<close> and the Option Model it is
  rendered with. The mode switch calls \<^verbatim>\<open>setAggregateMode\<close> and dispatches nothing;
  a batch of setter calls commits once through the mapping and the reducer.
\<close>

record TableQueryBuilder =
  isAggregateMode :: bool
  builderOptions :: QueryBuilderOptions

definition table_mount :: "QueryBuilderOptions \<Rightarrow> TableQueryBuilder" where
  "table_mount opts =
     \<lparr> isAggregateMode = isAggregateMode_initial opts, builderOptions = opts \<rparr>"

definition table_onOptionChange :: "TableQueryBuilder \<Rightarrow> TableChange list \<Rightarrow> OptionFields option" where
  "table_onOptionChange b queued =
     useBuilderOptionChanges (table_onChange (isAggregateMode b)) table_apply
       (table_builderState (builderOptions b)) queued"

definition table_merged :: "TableQueryBuilder \<Rightarrow> TableChange list \<Rightarrow> TableQueryBuilderState" where
  "table_merged b queued = reconcile table_apply (table_builderState (builderOptions b)) queued"

datatype TableEvent = SetAggregateMode bool | Changes "TableChange list"

fun table_step :: "TableQueryBuilder \<Rightarrow> TableEvent \<Rightarrow> TableQueryBuilder" where
  "table_step b (SetAggregateMode v) = b\<lparr> isAggregateMode := v \<rparr>"
| "table_step b (Changes queued) =
     (case table_onOptionChange b queued of
        None \<Rightarrow> b
      | Some payload \<Rightarrow> b\<lparr> builderOptions := setOptions payload (builderOptions b) \<rparr>)"

definition table_run :: "TableQueryBuilder \<Rightarrow> TableEvent list \<Rightarrow> TableQueryBuilder" where
  "table_run b evs = foldl table_step b evs"

section \<open>Respecting the boxes of the Logs builder\<close>

text \<open>
  A box (the Time, Log Level or Log Message select) respects its hint when it is empty
  or holds a column carrying that hint; a builder state respects the boxes when the
  selected columns are those without a box of their own and each box respects its
  hint. \<open>wellHinted\<close> says the same of the value one setter call delivers.
\<close>

definition carries :: "ColumnHint \<Rightarrow> SelectedColumn option \<Rightarrow> bool" where
  "carries h box = (case box of None \<Rightarrow> True | Some c \<Rightarrow> hint c = Some h)"

definition boxesRespected :: "LogsQueryBuilderState \<Rightarrow> bool" where
  "boxesRespected s =
     (list_all noOwnBox (LogsQueryBuilderState.selectedColumns s) \<and> carries Time (timeColumn s) \<and>
      carries LogLevel (logLevelColumn s) \<and> carries LogMessage (messageColumn s))"

fun wellHinted :: "LogsChange \<Rightarrow> bool" where
  "wellHinted (Set_selectedColumns v) = list_all noOwnBox v"
| "wellHinted (Set_timeColumn v) = carries Time v"
| "wellHinted (Set_logLevelColumn v) = carries LogLevel v"
| "wellHinted (Set_messageColumn v) = carries LogMessage v"
| "wellHinted u = True"

section \<open>The default inference rules (logsQueryBuilderHooks)\<close>

text \<open>A column named \<open>n\<close> carrying the hint \<open>h\<close>.\<close>

definition hintedColumn :: "string \<Rightarrow> ColumnHint \<Rightarrow> SelectedColumn" where
  "hintedColumn n h = \<lparr> name = n, alias_name = None, hint = Some h \<rparr>"

text \<open>
  Modelled from the spec: the hook \<^verbatim>\<open>useOtelColumns\<close> is missing; the view calls it
  with the flag and the version of the builder state (line 84). "When the
  log-schema-convention flag is enabled and a convention version is known, replaces
  the Time/LogLevel/LogMessage-hinted columns with the convention's fixed column names
  for that version; runs whenever the flag or version changes". The spec leaves the
  names of a version open: \<open>versions\<close> gives, for a known version, the names of its
  time, level and message columns. \<open>lastDeps\<close> is the flag and version of the previous
  render, \<open>None\<close> at mount.
\<close>

type_synonym OtelVersions = "string \<Rightarrow> (string \<times> string \<times> string) option"

definition otelColumns :: "string \<times> string \<times> string \<Rightarrow> SelectedColumn list" where
  "otelColumns names =
     (case names of (t, l, m) \<Rightarrow>
        [hintedColumn t Time, hintedColumn l LogLevel, hintedColumn m LogMessage])"

definition otelColumnsRule ::
  "OtelVersions \<Rightarrow> bool \<Rightarrow> string \<Rightarrow> QueryBuilderOptions \<Rightarrow> QueryBuilderOptions" where
  "otelColumnsRule versions enabled version opts =
     (if enabled then
        (case versions version of
           None \<Rightarrow> opts
         | Some names \<Rightarrow>
             opts \<lparr> columns :=
               Some (filter noOwnBox (or_default (columns opts) []) @ otelColumns names) \<rparr>)
      else opts)"

definition useOtelColumns ::
  "OtelVersions \<Rightarrow> (bool \<times> string) option \<Rightarrow> bool \<Rightarrow> string \<Rightarrow> QueryBuilderOptions
     \<Rightarrow> QueryBuilderOptions \<times> (bool \<times> string) option" where
  "useOtelColumns versions lastDeps enabled version opts =
     (if lastDeps = Some (enabled, version) then (opts, lastDeps)
      else (otelColumnsRule versions enabled version opts, Some (enabled, version)))"

text \<open>The call of line 84.\<close>

definition logs_useOtelColumns ::
  "OtelVersions \<Rightarrow> (bool \<times> string) option \<Rightarrow> QueryBuilderOptions
     \<Rightarrow> QueryBuilderOptions \<times> (bool \<times> string) option" where
  "logs_useOtelColumns versions lastDeps opts =
     useOtelColumns versions lastDeps (LogsQueryBuilderState.otelEnabled (logs_builderState opts))
       (LogsQueryBuilderState.otelVersion (logs_builderState opts)) opts"

text \<open>
  The rule over the renders of a session: each render reads the flag and the version off
  the Option Model it is rendered with, and the rule remembers those of the render
  before. The result is the model each render leaves.
\<close>

fun logs_useOtelColumns_run ::
  "OtelVersions \<Rightarrow> (bool \<times> string) option \<Rightarrow> QueryBuilderOptions list \<Rightarrow> QueryBuilderOptions list" where
  "logs_useOtelColumns_run versions lastDeps [] = []"
| "logs_useOtelColumns_run versions lastDeps (opts # later) =
     (case logs_useOtelColumns versions lastDeps opts of
        (opts', deps) \<Rightarrow> opts' # logs_useOtelColumns_run versions deps later)"

text \<open>
  Modelled from the spec: the Column Catalog gives a "sequence of {name, type, hint?}";
  the rules below read the name and the declared type.
\<close>

record TableColumn =
  columnName :: string
  columnType :: string

text \<open>
  Modelled from the spec: the hook \<^verbatim>\<open>useDefaultTimeColumn\<close> is missing; the view calls
  it with the catalog, the table, the Time box and the flag (line 85). "If no
  Time-hinted column is set and the convention flag is disabled, and the schema
  location changed or this is a newly created query, scans the Column Catalog for a
  column whose declared type is a timestamp-like type and whose name matches a
  recognized default-time-column convention; if found, proposes it as the Time-hinted
  column. Runs at most once per fresh query/table selection"; an empty catalog is an
  unknown schema and leaves the rule inert. \<open>isDefaultTime\<close> is the test the spec
  leaves open (timestamp-like type and recognized name); the first match in catalog
  order is taken. \<open>fresh\<close> holds while the query or table selection is new and not yet
  configured: a query with a Time column is configured, and a scan uses the selection up.
\<close>

record DefaultTimeState =
  fresh :: bool
  lastTable :: string

definition useDefaultTimeColumn_mount :: "bool \<Rightarrow> string \<Rightarrow> DefaultTimeState" where
  "useDefaultTimeColumn_mount isNewQuery tbl = \<lparr> fresh = isNewQuery, lastTable = tbl \<rparr>"

definition useDefaultTimeColumn ::
  "(TableColumn \<Rightarrow> bool) \<Rightarrow> DefaultTimeState \<Rightarrow> TableColumn list \<Rightarrow> string \<Rightarrow> SelectedColumn option
     \<Rightarrow> bool \<Rightarrow> SelectedColumn option \<times> DefaultTimeState" where
  "useDefaultTimeColumn isDefaultTime st allColumns tbl timeCol otel =
     (if timeCol \<noteq> None then (None, \<lparr> fresh = False, lastTable = tbl \<rparr>)
      else if otel \<or> allColumns = [] \<or> \<not> (fresh st \<or> tbl \<noteq> lastTable st)
        then (None, \<lparr> fresh = (fresh st \<or> tbl \<noteq> lastTable st), lastTable = tbl \<rparr>)
      else (map_option (\<lambda>c. hintedColumn (columnName c) Time) (find isDefaultTime allColumns),
            \<lparr> fresh = False, lastTable = tbl \<rparr>))"

text \<open>
  What one render hands to the rule, and the proposals of the rule over a sequence of
  renders.
\<close>

record DefaultTimeRender =
  seenColumns :: "TableColumn list"
  seenTable :: string
  seenTimeColumn :: "SelectedColumn option"
  seenOtelEnabled :: bool

fun defaultTime_run ::
  "(TableColumn \<Rightarrow> bool) \<Rightarrow> DefaultTimeState \<Rightarrow> DefaultTimeRender list \<Rightarrow> SelectedColumn option list" where
  "defaultTime_run isDefaultTime st [] = []"
| "defaultTime_run isDefaultTime st (r # rs) =
     (case useDefaultTimeColumn isDefaultTime st (seenColumns r) (seenTable r) (seenTimeColumn r)
             (seenOtelEnabled r) of
        (proposal, st') \<Rightarrow> proposal # defaultTime_run isDefaultTime st' rs)"

text \<open>
  Modelled from the spec: the hook \<^verbatim>\<open>useDefaultFilters\<close> is missing; the view calls it
  with the table, the Time box, the filters and the ordering (line 86). "When a
  Time-hinted column becomes available and the query has no filters and no explicit
  ordering yet, proposes a default filter (commonly a relative time-range restriction
  on that column) and a default ordering (by that column, descending) - applied once,
  keyed off filters/orderBy still empty, not re-applied once the user has added or
  cleared them." The spec leaves the literal of the default filter open: \<open>timeRange\<close>
  is its operator, operands and combinator. \<open>settled\<close> holds once the default was
  proposed or a filter or ordering was seen; the spec gives the table no part in this
  rule.
\<close>

definition defaultFilter :: "string \<times> string list \<times> string \<Rightarrow> SelectedColumn \<Rightarrow> Filter" where
  "defaultFilter timeRange c = (case timeRange of (operator, operands, condition) \<Rightarrow>
     Filter (name c) operator operands condition)"

definition useDefaultFilters ::
  "string \<times> string list \<times> string \<Rightarrow> bool \<Rightarrow> string \<Rightarrow> SelectedColumn option \<Rightarrow> Filter list
     \<Rightarrow> OrderBy list \<Rightarrow> (Filter list \<times> OrderBy list) option \<times> bool" where
  "useDefaultFilters timeRange settled tbl timeCol curFilters curOrderBy =
     (if settled \<or> curFilters \<noteq> [] \<or> curOrderBy \<noteq> [] then (None, True)
      else (case timeCol of
              None \<Rightarrow> (None, False)
            | Some c \<Rightarrow> (Some ([defaultFilter timeRange c], [OrderBy (name c) DESC]), True)))"

text \<open>At mount nothing was proposed and nothing seen.\<close>

definition useDefaultFilters_mount :: bool where
  "useDefaultFilters_mount = False"

record DefaultFiltersRender =
  shownTable :: string
  shownTimeColumn :: "SelectedColumn option"
  shownFilters :: "Filter list"
  shownOrderBy :: "OrderBy list"

fun defaultFilters_run ::
  "string \<times> string list \<times> string \<Rightarrow> bool \<Rightarrow> DefaultFiltersRender list
     \<Rightarrow> (Filter list \<times> OrderBy list) option list" where
  "defaultFilters_run timeRange settled [] = []"
| "defaultFilters_run timeRange settled (r # rs) =
     (case useDefaultFilters timeRange settled (shownTable r) (shownTimeColumn r) (shownFilters r)
             (shownOrderBy r) of
        (proposal, settled') \<Rightarrow> proposal # defaultFilters_run timeRange settled' rs)"

text \<open>How many renders of a run made a proposal.\<close>

definition proposals :: "'a option list \<Rightarrow> nat" where
  "proposals ps = length (filter (\<lambda>p. p \<noteq> None) ps)"

section \<open>Example models\<close>

text \<open>
  Concrete Option Models, a catalog and a convention version, for evaluating the
  builders and the rules: an empty model, a model with a Time column, one with two
  Time-hinted columns, one with an aggregate, one with a group-by and no aggregate, and
  a model with the convention flag and version set.
\<close>

definition emptyOptions :: QueryBuilderOptions where
  "emptyOptions =
     \<lparr> mode = None, columns = None, aggregates = None, groupBy = None, filters = None,
       orderBy = None, limit = None, database = ''default'', table = ''logs'', meta = None \<rparr>"

definition timeOptions :: QueryBuilderOptions where
  "timeOptions = emptyOptions
     \<lparr> columns := Some [\<lparr> name = ''timestamp'', alias_name = None, hint = Some Time \<rparr>] \<rparr>"

definition countAll :: AggregateColumn where
  "countAll = AggregateColumn ''count'' ''*'' None"

definition countOptions :: QueryBuilderOptions where
  "countOptions = emptyOptions \<lparr> OptionFields.aggregates := Some [countAll] \<rparr>"

definition groupedOptions :: QueryBuilderOptions where
  "groupedOptions = emptyOptions \<lparr> OptionFields.groupBy := Some [''host''] \<rparr>"

definition otelOptions :: "bool \<Rightarrow> string \<Rightarrow> QueryBuilderOptions" where
  "otelOptions enabled version = timeOptions
     \<lparr> meta := Some \<lparr> QueryBuilderMeta.otelEnabled = Some enabled,
                      QueryBuilderMeta.otelVersion = Some version \<rparr> \<rparr>"

definition oneVersion :: OtelVersions where
  "oneVersion version = (if version = ''v1'' then Some (''Timestamp'', ''SeverityText'', ''Body'') else None)"

definition twoTimeOptions :: QueryBuilderOptions where
  "twoTimeOptions = emptyOptions
     \<lparr> columns := Some [hintedColumn ''timestamp'' Time, hintedColumn ''event_time'' Time] \<rparr>"

definition logsCatalog :: "TableColumn list" where
  "logsCatalog =
     [\<lparr> columnName = ''body'', columnType = ''String'' \<rparr>,
      \<lparr> columnName = ''timestamp'', columnType = ''DateTime'' \<rparr>]"

definition isTimestamp :: "TableColumn \<Rightarrow> bool" where
  "isTimestamp c = (columnType c = ''DateTime'' \<and> columnName c = ''timestamp'')"

section \<open>Properties\<close>

subsection \<open>Defaults and the reconciler\<close>

lemma or_zero_eq: "or_zero x = or_default x 0"
  by (simp add: or_zero_def or_default_def split: option.splits)

lemma reconcile_Nil: "reconcile app prevState [] = prevState"
  by (simp add: reconcile_def)

lemma reconcile_Cons: "reconcile app prevState (u # us) = reconcile app (app u prevState) us"
  by (simp add: reconcile_def)

lemma reconcile_last_written:
  assumes same: "\<And>u s. get (key_of u) (app u s) = value_of u"
    and other: "\<And>u s k. key_of u \<noteq> k \<Longrightarrow> get k (app u s) = get k s"
  shows "get k (reconcile app prevState queued) =
    (case last_written key_of value_of k queued of Some v \<Rightarrow> v | None \<Rightarrow> get k prevState)"
proof (induction queued arbitrary: prevState)
  case Nil
  show ?case by (simp add: reconcile_Nil)
next
  case (Cons u us)
  show ?case
  proof (cases "last_written key_of value_of k us")
    case (Some v)
    with Cons.IH [of "app u prevState"] show ?thesis by (simp add: reconcile_Cons)
  next
    case None
    with Cons.IH [of "app u prevState"] show ?thesis
      by (cases "key_of u = k") (auto simp add: reconcile_Cons same other)
  qed
qed

lemma logs_get_same: "logs_get (logs_key u) (logs_apply u s) = logs_value u"
  by (cases u) simp_all

lemma logs_get_other: "logs_key u \<noteq> k \<Longrightarrow> logs_get k (logs_apply u s) = logs_get k s"
  by (cases u; cases k) simp_all

lemma table_get_same: "table_get (table_key u) (table_apply u s) = table_value u"
  by (cases u) simp_all

lemma table_get_other: "table_key u \<noteq> k \<Longrightarrow> table_get k (table_apply u s) = table_get k s"
  by (cases u; cases k) simp_all

lemma logs_reconcile:
  "logs_get k (reconcile logs_apply prevState queued) =
    (case last_written logs_key logs_value k queued of Some v \<Rightarrow> v | None \<Rightarrow> logs_get k prevState)"
  by (rule reconcile_last_written) (simp_all add: logs_get_same logs_get_other)

lemma table_reconcile:
  "table_get k (reconcile table_apply prevState queued) =
    (case last_written table_key table_value k queued of Some v \<Rightarrow> v | None \<Rightarrow> table_get k prevState)"
  by (rule reconcile_last_written) (simp_all add: table_get_same table_get_other)

lemma logs_merged_last_written:
  "logs_get k (logs_merged opts queued) =
    (case last_written logs_key logs_value k queued of
       Some v \<Rightarrow> v
     | None \<Rightarrow> logs_get k (logs_builderState opts))"
  by (simp add: logs_merged_def logs_reconcile)

lemma table_merged_last_written:
  "table_get k (table_merged b queued) =
    (case last_written table_key table_value k queued of
       Some v \<Rightarrow> v
     | None \<Rightarrow> table_get k (table_builderState (builderOptions b)))"
  by (simp add: table_merged_def table_reconcile)

lemma logs_commit_merged:
  "queued \<noteq> [] \<Longrightarrow> logs_commit opts queued = opts
     \<lparr> columns := Some (logs_nextColumns (logs_merged opts queued)),
       OptionFields.filters := Some (LogsQueryBuilderState.filters (logs_merged opts queued)),
       OptionFields.orderBy := Some (LogsQueryBuilderState.orderBy (logs_merged opts queued)),
       OptionFields.limit := Some (LogsQueryBuilderState.limit (logs_merged opts queued)) \<rparr>"
  by (simp add: logs_commit_def logs_onOptionChange_def useBuilderOptionChanges_def setOptions_def
      logs_onChange_def logs_merged_def)

lemma table_step_merged:
  "queued \<noteq> [] \<Longrightarrow> table_step b (Changes queued) = b
     \<lparr> builderOptions := (builderOptions b)
        \<lparr> mode := Some (if isAggregateMode b then Aggregate else List),
          columns := Some (selectedColumns (table_merged b queued)),
          OptionFields.aggregates :=
            Some (if isAggregateMode b then aggregates (table_merged b queued) else []),
          OptionFields.groupBy :=
            Some (if isAggregateMode b then groupBy (table_merged b queued) else []),
          OptionFields.filters := Some (filters (table_merged b queued)),
          OptionFields.orderBy := Some (orderBy (table_merged b queued)),
          OptionFields.limit := Some (limit (table_merged b queued)) \<rparr> \<rparr>"
  by (simp add: table_onOptionChange_def useBuilderOptionChanges_def setOptions_def
      table_onChange_def table_merged_def)

text \<open>
  C1, as amended. The setter calls of one batch are merged and committed once. In the
  merged state every member holds the last value the batch wrote to it (a limit as its
  setter floors it), and a member no queued update names holds its value of the
  snapshot the batch was queued against. The committed Option Model is the mapping's
  projection of the merged state onto the model before the batch. Logs builder:
  \<^verbatim>\<open>columns\<close> is the merged selected columns followed by the filled boxes, \<^verbatim>\<open>filters\<close>,
  \<^verbatim>\<open>orderBy\<close> and \<^verbatim>\<open>limit\<close> are the merged ones, every other member of the model (the
  flag and version in \<^verbatim>\<open>meta\<close> included) is as before. Table builder: \<^verbatim>\<open>mode\<close> is the
  builder's mode, \<^verbatim>\<open>columns\<close>, \<^verbatim>\<open>filters\<close>, \<^verbatim>\<open>orderBy\<close> and \<^verbatim>\<open>limit\<close> are the merged ones,
  \<^verbatim>\<open>aggregates\<close> and \<^verbatim>\<open>groupBy\<close> are the merged ones in Aggregate mode and empty in List
  mode, every other member is as before.
\<close>

theorem batch_commits_merged_state:
  assumes "queued \<noteq> []" and "queued' \<noteq> []"
  shows "(\<forall>k. logs_get k (logs_merged opts queued) =
            (case last_written logs_key logs_value k queued of
               Some v \<Rightarrow> v
             | None \<Rightarrow> logs_get k (logs_builderState opts))) \<and>
         logs_commit opts queued = opts
           \<lparr> columns := Some (LogsQueryBuilderState.selectedColumns (logs_merged opts queued) @
               pushed (timeColumn (logs_merged opts queued)) @
               pushed (logLevelColumn (logs_merged opts queued)) @
               pushed (messageColumn (logs_merged opts queued))),
             OptionFields.filters := Some (LogsQueryBuilderState.filters (logs_merged opts queued)),
             OptionFields.orderBy := Some (LogsQueryBuilderState.orderBy (logs_merged opts queued)),
             OptionFields.limit := Some (LogsQueryBuilderState.limit (logs_merged opts queued)) \<rparr> \<and>
         (\<forall>k. table_get k (table_merged b queued') =
            (case last_written table_key table_value k queued' of
               Some v \<Rightarrow> v
             | None \<Rightarrow> table_get k (table_builderState (builderOptions b)))) \<and>
         table_step b (Changes queued') = b
           \<lparr> builderOptions := (builderOptions b)
              \<lparr> mode := Some (if isAggregateMode b then Aggregate else List),
                columns := Some (selectedColumns (table_merged b queued')),
                OptionFields.aggregates :=
                  Some (if isAggregateMode b then aggregates (table_merged b queued') else []),
                OptionFields.groupBy :=
                  Some (if isAggregateMode b then groupBy (table_merged b queued') else []),
                OptionFields.filters := Some (filters (table_merged b queued')),
                OptionFields.orderBy := Some (orderBy (table_merged b queued')),
                OptionFields.limit := Some (limit (table_merged b queued')) \<rparr> \<rparr>"
proof -
  have l: "\<forall>k. logs_get k (logs_merged opts queued) =
            (case last_written logs_key logs_value k queued of
               Some v \<Rightarrow> v
             | None \<Rightarrow> logs_get k (logs_builderState opts))"
    by (simp add: logs_merged_last_written)
  have t: "\<forall>k. table_get k (table_merged b queued') =
            (case last_written table_key table_value k queued' of
               Some v \<Rightarrow> v
             | None \<Rightarrow> table_get k (table_builderState (builderOptions b)))"
    by (simp add: table_merged_last_written)
  from l t logs_commit_merged [OF assms(1), of opts] table_step_merged [OF assms(2), of b]
  show ?thesis
    unfolding logs_nextColumns_def by blast
qed

text \<open>
  A batch that writes the limit twice on a Logs model, and a batch writing the group-by
  and the limit on a Table model mounted with an aggregate: the last limit is committed,
  the aggregate no update names is committed as it was.
\<close>

theorem batch_commits_merged_state_witness:
  "OptionFields.limit (logs_commit timeOptions [Set_limit 5, Set_orderBy [], Set_limit 7]) = Some 7 \<and>
   OptionFields.orderBy (logs_commit timeOptions [Set_limit 5, Set_orderBy [], Set_limit 7]) = Some [] \<and>
   OptionFields.limit (builderOptions (table_step (table_mount countOptions)
     (Changes [Put_groupBy [''host''], Put_limit 3]))) = Some 3 \<and>
   OptionFields.aggregates (builderOptions (table_step (table_mount countOptions)
     (Changes [Put_groupBy [''host''], Put_limit 3]))) = Some [countAll] \<and>
   OptionFields.groupBy (builderOptions (table_step (table_mount countOptions)
     (Changes [Put_groupBy [''host''], Put_limit 3]))) = Some [''host'']"
proof -
  define Q where "Q = [Set_limit 5, Set_orderBy [], Set_limit 7]"
  define Q' where "Q' = [Put_groupBy [''host''], Put_limit 3]"
  define B where "B = table_mount countOptions"
  have q: "Q \<noteq> []" and q': "Q' \<noteq> []" by (simp_all add: Q_def Q'_def)
  note th = batch_commits_merged_state [OF q q', of timeOptions B]
  from th have l: "\<And>k. logs_get k (logs_merged timeOptions Q) =
      (case last_written logs_key logs_value k Q of
         Some v \<Rightarrow> v | None \<Rightarrow> logs_get k (logs_builderState timeOptions))"
    by blast
  from th have t: "\<And>k. table_get k (table_merged B Q') =
      (case last_written table_key table_value k Q' of
         Some v \<Rightarrow> v | None \<Rightarrow> table_get k (table_builderState (builderOptions B)))"
    by blast
  from th have c: "OptionFields.limit (logs_commit timeOptions Q) =
      Some (LogsQueryBuilderState.limit (logs_merged timeOptions Q))"
    and o: "OptionFields.orderBy (logs_commit timeOptions Q) =
      Some (LogsQueryBuilderState.orderBy (logs_merged timeOptions Q))"
    by simp_all
  from th have s: "OptionFields.limit (builderOptions (table_step B (Changes Q'))) =
      Some (limit (table_merged B Q'))"
    and a: "OptionFields.aggregates (builderOptions (table_step B (Changes Q'))) =
      Some (if isAggregateMode B then aggregates (table_merged B Q') else [])"
    and g: "OptionFields.groupBy (builderOptions (table_step B (Changes Q'))) =
      Some (if isAggregateMode B then groupBy (table_merged B Q') else [])"
    by simp_all
  have m: "isAggregateMode B"
    by (simp add: B_def table_mount_def countOptions_def isAggregateMode_initial_def emptyOptions_def)
  have l1: "LogsQueryBuilderState.limit (logs_merged timeOptions Q) = 7"
    using l [of K_limit] by (simp add: Q_def floor_limit_def)
  have l2: "LogsQueryBuilderState.orderBy (logs_merged timeOptions Q) = []"
    using l [of K_orderBy] by (simp add: Q_def)
  have t1: "limit (table_merged B Q') = 3"
    using t [of T_limit] by (simp add: Q'_def floor_limit_def)
  have t2: "aggregates (table_merged B Q') = [countAll]"
    using t [of T_aggregates]
    by (simp add: Q'_def B_def table_mount_def table_builderState_def countOptions_def or_default_def)
  have t3: "groupBy (table_merged B Q') = [''host'']"
    using t [of T_groupBy] by (simp add: Q'_def)
  from c o s a g show ?thesis
    unfolding Q_def [symmetric] Q'_def [symmetric] B_def [symmetric]
    by (simp add: m l1 l2 t1 t2 t3 del: table_step.simps)
qed

text \<open>
  A Table model with an aggregate, switched to List mode: a batch that only writes the
  limit leaves the aggregate in the merged state and commits \<^verbatim>\<open>aggregates\<close> empty. A
  Logs batch that writes the flag commits a model whose \<^verbatim>\<open>meta\<close> is as before.
\<close>

theorem batch_commits_merged_state_counterexample:
  "isAggregateMode (table_run (table_mount countOptions) [SetAggregateMode False]) = False \<and>
   aggregates (table_builderState (builderOptions
     (table_run (table_mount countOptions) [SetAggregateMode False]))) = [countAll] \<and>
   last_written table_key table_value T_aggregates [Put_limit 10] = None \<and>
   aggregates (table_merged (table_run (table_mount countOptions) [SetAggregateMode False])
     [Put_limit 10]) = [countAll] \<and>
   OptionFields.aggregates (table_onChange False
     (table_merged (table_run (table_mount countOptions) [SetAggregateMode False]) [Put_limit 10])) =
     Some [] \<and>
   OptionFields.aggregates (builderOptions (table_run (table_mount countOptions)
     [SetAggregateMode False, Changes [Put_limit 10]])) = Some [] \<and>
   meta (logs_commit (otelOptions False ''v1'') [Set_otelEnabled True]) =
     Some \<lparr> QueryBuilderMeta.otelEnabled = Some False, QueryBuilderMeta.otelVersion = Some ''v1'' \<rparr>"
  by (simp add: table_run_def table_mount_def countOptions_def emptyOptions_def
      isAggregateMode_initial_def table_onOptionChange_def useBuilderOptionChanges_def
      reconcile_def table_builderState_def table_onChange_def setOptions_def or_default_def
      table_merged_def logs_commit_def logs_onOptionChange_def otelOptions_def timeOptions_def
      logs_onChange_def)

subsection \<open>The columns the Logs builder commits\<close>

lemma pushed_find:
  "hinted h cs \<le> 1 \<Longrightarrow> pushed (find (\<lambda>c. hint c = Some h) cs) = filter (\<lambda>c. hint c = Some h) cs"
proof (induction cs)
  case Nil
  show ?case by (simp add: pushed_def)
next
  case (Cons c cs)
  show ?case
  proof (cases "hint c = Some h")
    case True
    with Cons.prems have "filter (\<lambda>c. hint c = Some h) cs = []"
      by (simp add: hinted_def)
    with True show ?thesis by (simp add: pushed_def)
  next
    case False
    with Cons show ?thesis by (simp add: hinted_def)
  qed
qed

lemma mset_boxes:
  "mset (filter noOwnBox cs) + mset (filter (\<lambda>c. hint c = Some Time) cs) +
     mset (filter (\<lambda>c. hint c = Some LogLevel) cs) +
     mset (filter (\<lambda>c. hint c = Some LogMessage) cs) = mset cs"
  by (induction cs) (auto simp add: noOwnBox_def)

lemma carries_find: "carries h (find (\<lambda>c. hint c = Some h) cs)"
  by (induction cs) (simp_all add: carries_def)

lemma boxesRespected_builderState: "boxesRespected (logs_builderState opts)"
  by (simp add: boxesRespected_def logs_builderState_def getColumnByHint_def carries_find
      list_all_iff split: option.splits) (simp add: carries_def)

lemma boxesRespected_apply:
  "wellHinted u \<Longrightarrow> boxesRespected s \<Longrightarrow> boxesRespected (logs_apply u s)"
  by (cases u) (simp_all add: boxesRespected_def)

lemma boxesRespected_reconcile:
  "list_all wellHinted queued \<Longrightarrow> boxesRespected s \<Longrightarrow> boxesRespected (reconcile logs_apply s queued)"
  by (induction queued arbitrary: s) (simp_all add: reconcile_Nil reconcile_Cons boxesRespected_apply)

lemma hinted_append: "hinted h (xs @ ys) = hinted h xs + hinted h ys"
  by (simp add: hinted_def)

lemma hinted_noOwnBox:
  "list_all noOwnBox cs \<Longrightarrow> h = Time \<or> h = LogLevel \<or> h = LogMessage \<Longrightarrow> hinted h cs = 0"
  by (induction cs) (auto simp add: hinted_def noOwnBox_def)

lemma hinted_pushed_same: "hinted h (pushed box) \<le> 1"
  by (simp add: hinted_def pushed_def split: option.splits)

lemma hinted_pushed_other: "carries h' box \<Longrightarrow> h \<noteq> h' \<Longrightarrow> hinted h (pushed box) = 0"
  by (auto simp add: hinted_def pushed_def carries_def split: option.splits)

lemma hinted_nextColumns:
  assumes "boxesRespected s"
  shows "hinted Time (logs_nextColumns s) \<le> 1 \<and> hinted LogLevel (logs_nextColumns s) \<le> 1 \<and>
         hinted LogMessage (logs_nextColumns s) \<le> 1"
proof -
  from assms have sel: "list_all noOwnBox (LogsQueryBuilderState.selectedColumns s)"
    and t: "carries Time (timeColumn s)" and l: "carries LogLevel (logLevelColumn s)"
    and m: "carries LogMessage (messageColumn s)"
    by (simp_all add: boxesRespected_def)
  have "hinted Time (logs_nextColumns s) = hinted Time (pushed (timeColumn s))"
    by (simp add: logs_nextColumns_def hinted_append hinted_noOwnBox [OF sel]
        hinted_pushed_other [OF l] hinted_pushed_other [OF m])
  moreover have "hinted LogLevel (logs_nextColumns s) = hinted LogLevel (pushed (logLevelColumn s))"
    by (simp add: logs_nextColumns_def hinted_append hinted_noOwnBox [OF sel]
        hinted_pushed_other [OF t] hinted_pushed_other [OF m])
  moreover have "hinted LogMessage (logs_nextColumns s) = hinted LogMessage (pushed (messageColumn s))"
    by (simp add: logs_nextColumns_def hinted_append hinted_noOwnBox [OF sel]
        hinted_pushed_other [OF t] hinted_pushed_other [OF l])
  ultimately show ?thesis
    using hinted_pushed_same [of Time "timeColumn s"] hinted_pushed_same [of LogLevel "logLevelColumn s"]
      hinted_pushed_same [of LogMessage "messageColumn s"]
    by simp
qed

lemma map_filter_append: "List.map_filter f (xs @ ys) = List.map_filter f xs @ List.map_filter f ys"
  by (simp add: List.map_filter_def)

lemma hints_noOwnBox:
  "list_all noOwnBox cs \<Longrightarrow> h = Time \<or> h = LogLevel \<or> h = LogMessage \<Longrightarrow> h \<notin> set (List.map_filter hint cs)"
  by (induction cs) (auto simp add: List.map_filter_def noOwnBox_def)

lemma hints_pushed:
  "carries h box \<Longrightarrow> List.map_filter hint (pushed box) = (case box of None \<Rightarrow> [] | Some c \<Rightarrow> [h])"
  by (auto simp add: List.map_filter_def pushed_def carries_def split: option.splits)

lemma hintsUnique_nextColumns:
  assumes "boxesRespected s" and "hintsUnique (LogsQueryBuilderState.selectedColumns s)"
  shows "hintsUnique (logs_nextColumns s)"
proof -
  from assms(1) have sel: "list_all noOwnBox (LogsQueryBuilderState.selectedColumns s)"
    and t: "carries Time (timeColumn s)" and l: "carries LogLevel (logLevelColumn s)"
    and m: "carries LogMessage (messageColumn s)"
    by (simp_all add: boxesRespected_def)
  from assms(2) show ?thesis
    using hints_noOwnBox [OF sel, of Time] hints_noOwnBox [OF sel, of LogLevel]
      hints_noOwnBox [OF sel, of LogMessage]
    by (simp add: hintsUnique_def logs_nextColumns_def map_filter_append hints_pushed [OF t]
        hints_pushed [OF l] hints_pushed [OF m] split: option.splits)
qed

lemma logs_commit_columns:
  "queued \<noteq> [] \<Longrightarrow> columns (logs_commit opts queued) =
     Some (logs_nextColumns (reconcile logs_apply (logs_builderState opts) queued))"
  by (simp add: logs_commit_def logs_onOptionChange_def useBuilderOptionChanges_def setOptions_def
      logs_onChange_def)

text \<open>
  C2, as amended. For every Option Model and every non-empty batch of setter calls
  whose values respect the boxes, the committed \<^verbatim>\<open>columns\<close> hold at most one column for
  each of the hints Time, LogLevel and LogMessage, whatever the model held before; if
  moreover no two selected columns of the merged state share a hint, no two committed
  columns share any hint.
\<close>

theorem logs_commit_hints:
  assumes "queued \<noteq> []" and "list_all wellHinted queued"
  shows "hinted Time (or_default (columns (logs_commit opts queued)) []) \<le> 1 \<and>
         hinted LogLevel (or_default (columns (logs_commit opts queued)) []) \<le> 1 \<and>
         hinted LogMessage (or_default (columns (logs_commit opts queued)) []) \<le> 1 \<and>
         (hintsUnique (LogsQueryBuilderState.selectedColumns
              (reconcile logs_apply (logs_builderState opts) queued)) \<longrightarrow>
            hintsUnique (or_default (columns (logs_commit opts queued)) []))"
proof -
  have r: "boxesRespected (reconcile logs_apply (logs_builderState opts) queued)"
    using assms(2) by (rule boxesRespected_reconcile) (rule boxesRespected_builderState)
  show ?thesis
    using hinted_nextColumns [OF r] hintsUnique_nextColumns [OF r]
    by (simp add: logs_commit_columns [OF assms(1)] or_default_def)
qed

text \<open>
  Putting another Time-hinted column into the Time box of a model with a Time column:
  the committed columns hold one Time-hinted column.
\<close>

theorem logs_commit_hints_witness:
  "hinted Time (or_default (columns (logs_commit timeOptions
      [Set_timeColumn (Some \<lparr> name = ''event_time'', alias_name = None, hint = Some Time \<rparr>)])) []) \<le> 1 \<and>
   hintsUnique (or_default (columns (logs_commit timeOptions
      [Set_timeColumn (Some \<lparr> name = ''event_time'', alias_name = None, hint = Some Time \<rparr>)])) [])"
proof -
  have q: "[Set_timeColumn (Some \<lparr> name = ''event_time'', alias_name = None, hint = Some Time \<rparr>)] \<noteq> []"
    by simp
  have w: "list_all wellHinted
      [Set_timeColumn (Some \<lparr> name = ''event_time'', alias_name = None, hint = Some Time \<rparr>)]"
    by (simp add: carries_def)
  have u: "hintsUnique (LogsQueryBuilderState.selectedColumns (reconcile logs_apply (logs_builderState timeOptions)
      [Set_timeColumn (Some \<lparr> name = ''event_time'', alias_name = None, hint = Some Time \<rparr>)]))"
    by (simp add: reconcile_def logs_builderState_def timeOptions_def emptyOptions_def hintsUnique_def
        noOwnBox_def List.map_filter_def)
  from logs_commit_hints [OF q w, of timeOptions] u show ?thesis by simp
qed

text \<open>
  The mapping pushes the boxes after whatever the selected columns are: on a model with
  a Time column, a call of the selected-columns setter with a list holding a Time-hinted
  column commits two Time-hinted columns.
\<close>

theorem logs_commit_hints_counterexample:
  "hintsUnique (or_default (columns timeOptions) []) \<and>
   hinted Time (logs_nextColumns (logs_apply (Set_selectedColumns [hintedColumn ''event_time'' Time])
      (logs_builderState timeOptions))) = 2 \<and>
   hinted Time (or_default (columns (logs_commit timeOptions
      [Set_selectedColumns [hintedColumn ''event_time'' Time]])) []) = 2"
  by (simp add: logs_commit_def logs_onOptionChange_def useBuilderOptionChanges_def setOptions_def
      logs_onChange_def reconcile_def logs_builderState_def timeOptions_def emptyOptions_def
      getColumnByHint_def logs_nextColumns_def pushed_def hinted_def or_default_def noOwnBox_def
      hintedColumn_def hintsUnique_def List.map_filter_def)

text \<open>
  C10, as amended. For an Option Model in which each of the hints Time, LogLevel and LogMessage is
  carried by at most one column, decomposing it into the builder state and committing
  that state through the mapping gives the columns without a box in their order,
  then the Time, the LogLevel and the LogMessage column: the same columns as before,
  each once. \<^verbatim>\<open>filters\<close>, \<^verbatim>\<open>orderBy\<close> and \<^verbatim>\<open>limit\<close> are committed as they were (a missing
  member as the empty sequence, a missing limit as 0).
\<close>

theorem logs_roundtrip:
  assumes "hinted Time (or_default (columns opts) []) \<le> 1"
    and "hinted LogLevel (or_default (columns opts) []) \<le> 1"
    and "hinted LogMessage (or_default (columns opts) []) \<le> 1"
  shows "columns (logs_onChange (logs_builderState opts)) =
           Some (filter noOwnBox (or_default (columns opts) []) @
                 filter (\<lambda>c. hint c = Some Time) (or_default (columns opts) []) @
                 filter (\<lambda>c. hint c = Some LogLevel) (or_default (columns opts) []) @
                 filter (\<lambda>c. hint c = Some LogMessage) (or_default (columns opts) [])) \<and>
         mset (or_default (columns (logs_onChange (logs_builderState opts))) []) =
           mset (or_default (columns opts) []) \<and>
         OptionFields.filters (logs_onChange (logs_builderState opts)) =
           Some (or_default (OptionFields.filters opts) []) \<and>
         OptionFields.orderBy (logs_onChange (logs_builderState opts)) =
           Some (or_default (OptionFields.orderBy opts) []) \<and>
         OptionFields.limit (logs_onChange (logs_builderState opts)) =
           Some (or_default (OptionFields.limit opts) 0)"
proof -
  have c: "columns (logs_onChange (logs_builderState opts)) =
           Some (filter noOwnBox (or_default (columns opts) []) @
                 filter (\<lambda>c. hint c = Some Time) (or_default (columns opts) []) @
                 filter (\<lambda>c. hint c = Some LogLevel) (or_default (columns opts) []) @
                 filter (\<lambda>c. hint c = Some LogMessage) (or_default (columns opts) []))"
  proof (cases "columns opts")
    case None
    then show ?thesis
      by (simp add: logs_onChange_def logs_nextColumns_def logs_builderState_def
          getColumnByHint_def or_default_def pushed_def)
  next
    case (Some cs)
    with assms show ?thesis
      by (simp add: logs_onChange_def logs_nextColumns_def logs_builderState_def
          getColumnByHint_def or_default_def pushed_find)
  qed
  have m: "mset (or_default (columns (logs_onChange (logs_builderState opts))) []) =
           mset (or_default (columns opts) [])"
    using mset_boxes [of "or_default (columns opts) []"] by (simp add: c or_default_def ac_simps)
  have r: "OptionFields.filters (logs_onChange (logs_builderState opts)) =
           Some (or_default (OptionFields.filters opts) []) \<and>
         OptionFields.orderBy (logs_onChange (logs_builderState opts)) =
           Some (or_default (OptionFields.orderBy opts) []) \<and>
         OptionFields.limit (logs_onChange (logs_builderState opts)) =
           Some (or_default (OptionFields.limit opts) 0)"
    by (simp add: logs_onChange_def logs_builderState_def or_zero_eq)
  from c m r show ?thesis by simp
qed

text \<open>The round trip of a model whose only column is its Time column.\<close>

theorem logs_roundtrip_witness:
  "hinted Time (or_default (columns timeOptions) []) \<le> 1 \<and>
   columns (logs_onChange (logs_builderState timeOptions)) = columns timeOptions \<and>
   OptionFields.limit (logs_onChange (logs_builderState timeOptions)) = Some 0"
proof -
  have t: "hinted Time (or_default (columns timeOptions) []) \<le> 1"
    by (simp add: timeOptions_def or_default_def hinted_def)
  have l: "hinted LogLevel (or_default (columns timeOptions) []) \<le> 1"
    by (simp add: timeOptions_def or_default_def hinted_def)
  have m: "hinted LogMessage (or_default (columns timeOptions) []) \<le> 1"
    by (simp add: timeOptions_def or_default_def hinted_def)
  from t logs_roundtrip [OF t l m] show ?thesis
    by (simp add: timeOptions_def emptyOptions_def or_default_def noOwnBox_def)
qed

text \<open>
  A model with two Time-hinted columns: the Time box holds one column, so the round trip
  commits one of the two.
\<close>

theorem logs_roundtrip_counterexample:
  "columns twoTimeOptions = Some [hintedColumn ''timestamp'' Time, hintedColumn ''event_time'' Time] \<and>
   columns (logs_onChange (logs_builderState twoTimeOptions)) = Some [hintedColumn ''timestamp'' Time]"
  by (simp add: logs_onChange_def logs_builderState_def twoTimeOptions_def emptyOptions_def
      getColumnByHint_def logs_nextColumns_def pushed_def noOwnBox_def hintedColumn_def)

subsection \<open>The modes of the Table builder\<close>

text \<open>
  C5. At mount the Table builder is in Aggregate mode exactly when the loaded model's
  \<^verbatim>\<open>aggregates\<close> is a non-empty sequence; a missing \<^verbatim>\<open>aggregates\<close> reads as empty and gives
  List mode.
\<close>

theorem table_initial_mode:
  "isAggregateMode (table_mount opts) = (or_default (OptionFields.aggregates opts) [] \<noteq> [])"
  by (simp add: table_mount_def isAggregateMode_initial_def or_default_def split: option.splits)

lemma table_changes_options:
  "queued \<noteq> [] \<Longrightarrow> builderOptions (table_step b (Changes queued)) =
     setOptions (table_onChange (isAggregateMode b)
       (reconcile table_apply (table_builderState (builderOptions b)) queued)) (builderOptions b)"
  by (simp add: table_onOptionChange_def useBuilderOptionChanges_def)

lemma table_step_mode:
  "isAggregateMode (table_step b (SetAggregateMode v)) = v"
  "builderOptions (table_step b (SetAggregateMode v)) = builderOptions b"
  by simp_all

lemma table_changes_nothing: "table_step b (Changes []) = b"
  by (simp add: table_onOptionChange_def useBuilderOptionChanges_def)

lemma table_unwritten_selectedColumns:
  "last_written table_key table_value T_selectedColumns queued = None \<Longrightarrow>
   selectedColumns (reconcile table_apply s queued) = selectedColumns s"
  using table_reconcile [of T_selectedColumns s queued] by simp

lemma table_unwritten_aggregates:
  "last_written table_key table_value T_aggregates queued = None \<Longrightarrow>
   aggregates (reconcile table_apply s queued) = aggregates s"
  using table_reconcile [of T_aggregates s queued] by simp

lemma table_unwritten_groupBy:
  "last_written table_key table_value T_groupBy queued = None \<Longrightarrow>
   groupBy (reconcile table_apply s queued) = groupBy s"
  using table_reconcile [of T_groupBy s queued] by simp

lemma table_list_commit:
  assumes "queued \<noteq> []" and "\<not> isAggregateMode b"
  shows "OptionFields.aggregates (builderOptions (table_step b (Changes queued))) = Some [] \<and>
         OptionFields.groupBy (builderOptions (table_step b (Changes queued))) = Some [] \<and>
         mode (builderOptions (table_step b (Changes queued))) = Some List"
  using assms by (simp add: table_changes_options setOptions_def table_onChange_def del: table_step.simps)

lemma table_aggregate_commit_keeps:
  assumes "isAggregateMode b"
    and "last_written table_key table_value T_aggregates later = None"
    and "last_written table_key table_value T_groupBy later = None"
  shows "or_default (OptionFields.aggregates (builderOptions (table_step b (Changes later)))) [] =
           or_default (OptionFields.aggregates (builderOptions b)) [] \<and>
         or_default (OptionFields.groupBy (builderOptions (table_step b (Changes later)))) [] =
           or_default (OptionFields.groupBy (builderOptions b)) []"
proof (cases "later = []")
  case True
  then show ?thesis by (simp add: table_changes_nothing del: table_step.simps)
next
  case False
  with assms show ?thesis
    by (simp add: table_changes_options setOptions_def table_onChange_def
        table_unwritten_aggregates table_unwritten_groupBy table_builderState_def or_default_def
        del: table_step.simps)
qed

text \<open>
  C3. From any state of the Table builder, the first commit after the switch to List
  mode has empty \<^verbatim>\<open>aggregates\<close> and \<^verbatim>\<open>groupBy\<close> and mode List, whatever they held in the
  Aggregate phase; switching to Aggregate again changes nothing in the model, and a
  later batch that writes neither member commits them empty still.
\<close>

theorem table_list_mode_clears:
  assumes "queued \<noteq> []"
    and "last_written table_key table_value T_aggregates later = None"
    and "last_written table_key table_value T_groupBy later = None"
  shows "OptionFields.aggregates (builderOptions (table_run b [SetAggregateMode False, Changes queued])) = Some [] \<and>
         OptionFields.groupBy (builderOptions (table_run b [SetAggregateMode False, Changes queued])) = Some [] \<and>
         mode (builderOptions (table_run b [SetAggregateMode False, Changes queued])) = Some List \<and>
         builderOptions (table_run b [SetAggregateMode False, Changes queued, SetAggregateMode True]) =
           builderOptions (table_run b [SetAggregateMode False, Changes queued]) \<and>
         or_default (OptionFields.aggregates (builderOptions
           (table_run b [SetAggregateMode False, Changes queued, SetAggregateMode True, Changes later]))) [] = [] \<and>
         or_default (OptionFields.groupBy (builderOptions
           (table_run b [SetAggregateMode False, Changes queued, SetAggregateMode True, Changes later]))) [] = []"
proof -
  define b1 where "b1 = table_step (table_step b (SetAggregateMode False)) (Changes queued)"
  define b2 where "b2 = table_step b1 (SetAggregateMode True)"
  have l: "\<not> isAggregateMode (table_step b (SetAggregateMode False))" by simp
  note c = table_list_commit [OF assms(1) l, folded b1_def]
  have o: "builderOptions b2 = builderOptions b1" and m: "isAggregateMode b2"
    by (simp_all add: b2_def)
  note k = table_aggregate_commit_keeps [OF m assms(2) assms(3)]
  have r1: "table_run b [SetAggregateMode False, Changes queued] = b1"
    by (simp add: table_run_def b1_def del: table_step.simps)
  have r2: "table_run b [SetAggregateMode False, Changes queued, SetAggregateMode True] = b2"
    by (simp add: table_run_def b1_def b2_def del: table_step.simps)
  have r3: "table_run b [SetAggregateMode False, Changes queued, SetAggregateMode True, Changes later] =
      table_step b2 (Changes later)"
    by (simp add: table_run_def b1_def b2_def del: table_step.simps)
  from c o k show ?thesis
    by (simp add: r1 r2 r3 or_default_def del: table_step.simps)
qed

text \<open>
  A model loaded with one aggregate mounts in Aggregate mode; after List mode and a
  change of the limit the aggregate is gone, and it is not back after the switch to
  Aggregate and another change of the limit.
\<close>

theorem table_list_mode_clears_witness:
  "OptionFields.aggregates (builderOptions (table_mount countOptions)) = Some [countAll] \<and>
   isAggregateMode (table_mount countOptions) \<and>
   OptionFields.aggregates (builderOptions
     (table_run (table_mount countOptions) [SetAggregateMode False, Changes [Put_limit 10]])) = Some [] \<and>
   or_default (OptionFields.aggregates (builderOptions
     (table_run (table_mount countOptions)
        [SetAggregateMode False, Changes [Put_limit 10], SetAggregateMode True, Changes [Put_limit 20]]))) [] = []"
proof -
  have q: "[Put_limit 10] \<noteq> []" by simp
  have a: "last_written table_key table_value T_aggregates [Put_limit 20] = None" by simp
  have g: "last_written table_key table_value T_groupBy [Put_limit 20] = None" by simp
  have "OptionFields.aggregates (builderOptions (table_mount countOptions)) = Some [countAll]"
    by (simp add: table_mount_def countOptions_def)
  moreover have "isAggregateMode (table_mount countOptions)"
    by (simp add: table_mount_def countOptions_def isAggregateMode_initial_def emptyOptions_def)
  ultimately show ?thesis
    using table_list_mode_clears [OF q a g, of "table_mount countOptions"] by simp
qed

text \<open>
  C4, as amended. The switch from List to Aggregate commits nothing: the Option Model,
  its \<^verbatim>\<open>columns\<close> included, is unchanged. The first commit in Aggregate mode of a batch
  that writes none of the selected columns, the aggregates and the group-bys carries
  \<^verbatim>\<open>columns\<close>, \<^verbatim>\<open>aggregates\<close> and \<^verbatim>\<open>groupBy\<close> of the model over as they stand (missing as
  empty): \<^verbatim>\<open>aggregates\<close> and \<^verbatim>\<open>groupBy\<close> are empty exactly when the model's were.
\<close>

theorem table_list_to_aggregate:
  assumes "queued \<noteq> []"
    and "last_written table_key table_value T_selectedColumns queued = None"
    and "last_written table_key table_value T_aggregates queued = None"
    and "last_written table_key table_value T_groupBy queued = None"
  shows "builderOptions (table_step b (SetAggregateMode True)) = builderOptions b \<and>
         columns (builderOptions (table_run b [SetAggregateMode True, Changes queued])) =
           Some (or_default (columns (builderOptions b)) []) \<and>
         OptionFields.aggregates (builderOptions (table_run b [SetAggregateMode True, Changes queued])) =
           Some (or_default (OptionFields.aggregates (builderOptions b)) []) \<and>
         OptionFields.groupBy (builderOptions (table_run b [SetAggregateMode True, Changes queued])) =
           Some (or_default (OptionFields.groupBy (builderOptions b)) [])"
  using assms
  by (simp add: table_run_def table_step_mode table_changes_options setOptions_def
      table_onChange_def table_unwritten_selectedColumns table_unwritten_aggregates
      table_unwritten_groupBy table_builderState_def del: table_step.simps)

text \<open>
  A model loaded with a group-by and no aggregate mounts in List mode; the first commit
  after the switch to Aggregate keeps its columns and its group-by.
\<close>

theorem table_list_to_aggregate_witness:
  "isAggregateMode (table_mount groupedOptions) = False \<and>
   columns (builderOptions (table_run (table_mount groupedOptions)
      [SetAggregateMode True, Changes [Put_limit 10]])) = Some [] \<and>
   OptionFields.aggregates (builderOptions (table_run (table_mount groupedOptions)
      [SetAggregateMode True, Changes [Put_limit 10]])) = Some [] \<and>
   OptionFields.groupBy (builderOptions (table_run (table_mount groupedOptions)
      [SetAggregateMode True, Changes [Put_limit 10]])) = Some [''host'']"
proof -
  have q: "[Put_limit 10] \<noteq> []" by simp
  have c: "last_written table_key table_value T_selectedColumns [Put_limit 10] = None" by simp
  have a: "last_written table_key table_value T_aggregates [Put_limit 10] = None" by simp
  have g: "last_written table_key table_value T_groupBy [Put_limit 10] = None" by simp
  have o: "builderOptions (table_mount groupedOptions) = groupedOptions"
    by (simp add: table_mount_def)
  have "isAggregateMode (table_mount groupedOptions) = False"
    by (simp add: table_mount_def groupedOptions_def isAggregateMode_initial_def emptyOptions_def)
  then show ?thesis
    using table_list_to_aggregate [OF q c a g, of "table_mount groupedOptions"]
    by (simp add: o) (simp add: groupedOptions_def emptyOptions_def or_default_def)
qed

text \<open>
  Two states in List mode where the switch to Aggregate does not start from empty
  sequences: a model mounted with a group-by and no aggregate, and a model mounted with
  an aggregate and switched to List without a commit in between.
\<close>

theorem table_list_to_aggregate_counterexample:
  "isAggregateMode (table_mount groupedOptions) = False \<and>
   OptionFields.groupBy (builderOptions (table_run (table_mount groupedOptions)
      [SetAggregateMode True, Changes [Put_limit 10]])) = Some [''host''] \<and>
   isAggregateMode (table_run (table_mount countOptions) [SetAggregateMode False]) = False \<and>
   OptionFields.aggregates (builderOptions (table_run (table_mount countOptions)
      [SetAggregateMode False, SetAggregateMode True, Changes [Put_limit 10]])) = Some [countAll]"
  by (simp add: table_run_def table_mount_def groupedOptions_def countOptions_def emptyOptions_def
      isAggregateMode_initial_def table_onOptionChange_def useBuilderOptionChanges_def
      reconcile_def table_builderState_def table_onChange_def setOptions_def or_default_def)

subsection \<open>The limit\<close>







subsection \<open>The schema-convention column rule\<close>

lemma filter_hint_noOwnBox:
  "filter (\<lambda>c. noOwnBox c \<and> hint c = Some Time) cs = []"
  "filter (\<lambda>c. noOwnBox c \<and> hint c = Some LogLevel) cs = []"
  "filter (\<lambda>c. noOwnBox c \<and> hint c = Some LogMessage) cs = []"
  by (auto simp add: noOwnBox_def filter_empty_conv)

lemma otelColumnsRule_columns:
  assumes "versions version = Some (t, l, m)"
  shows "columns (otelColumnsRule versions True version opts) =
           Some (filter noOwnBox (or_default (columns opts) []) @
             [hintedColumn t Time, hintedColumn l LogLevel, hintedColumn m LogMessage])"
  using assms by (simp add: otelColumnsRule_def otelColumns_def)

lemma useOtelColumns_memory:
  "snd (useOtelColumns versions lastDeps enabled version opts) = Some (enabled, version)"
  by (simp add: useOtelColumns_def)

lemma logs_useOtelColumns_memory:
  "snd (logs_useOtelColumns versions lastDeps opts) =
     Some (LogsQueryBuilderState.otelEnabled (logs_builderState opts),
           LogsQueryBuilderState.otelVersion (logs_builderState opts))"
  by (simp add: logs_useOtelColumns_def useOtelColumns_memory)

lemma logs_useOtelColumns_run_length:
  "length (logs_useOtelColumns_run versions lastDeps models) = length models"
  by (induction models arbitrary: lastDeps) (simp_all split: prod.splits)

lemma logs_useOtelColumns_run_last:
  "last (logs_useOtelColumns_run versions lastDeps (history @ [prev, opts])) =
     fst (logs_useOtelColumns versions
       (Some (LogsQueryBuilderState.otelEnabled (logs_builderState prev),
              LogsQueryBuilderState.otelVersion (logs_builderState prev))) opts)"
proof (induction history arbitrary: lastDeps)
  case Nil
  obtain o1 d1 where p: "logs_useOtelColumns versions lastDeps prev = (o1, d1)"
    by (cases "logs_useOtelColumns versions lastDeps prev")
  with logs_useOtelColumns_memory [of versions lastDeps prev]
  have d: "d1 = Some (LogsQueryBuilderState.otelEnabled (logs_builderState prev),
              LogsQueryBuilderState.otelVersion (logs_builderState prev))"
    by simp
  show ?case by (simp add: p d split: prod.splits)
next
  case (Cons h history)
  obtain o1 d1 where p: "logs_useOtelColumns versions lastDeps h = (o1, d1)"
    by (cases "logs_useOtelColumns versions lastDeps h")
  have n: "logs_useOtelColumns_run versions d1 (history @ [prev, opts]) \<noteq> []"
    using logs_useOtelColumns_run_length [of versions d1 "history @ [prev, opts]"] by auto
  from Cons.IH [of d1] n show ?case by (simp add: p)
qed

lemma logs_useOtelColumns_fires:
  assumes "versions version = Some (t, l, m)"
    and "LogsQueryBuilderState.otelEnabled (logs_builderState opts)"
    and "LogsQueryBuilderState.otelVersion (logs_builderState opts) = version"
    and "lastDeps \<noteq> Some (True, version)"
  shows "or_default (columns (fst (logs_useOtelColumns versions lastDeps opts))) [] =
      filter noOwnBox (or_default (columns opts) []) @
        [\<lparr> name = t, alias_name = None, hint = Some Time \<rparr>,
         \<lparr> name = l, alias_name = None, hint = Some LogLevel \<rparr>,
         \<lparr> name = m, alias_name = None, hint = Some LogMessage \<rparr>]"
  using assms
  by (simp add: logs_useOtelColumns_def useOtelColumns_def otelColumnsRule_columns or_default_def
      hintedColumn_def)

lemma otel_three_columns:
  assumes "cs = filter noOwnBox old @
        [\<lparr> name = t, alias_name = None, hint = Some Time \<rparr>,
         \<lparr> name = l, alias_name = None, hint = Some LogLevel \<rparr>,
         \<lparr> name = m, alias_name = None, hint = Some LogMessage \<rparr>]"
  shows "filter (\<lambda>c. hint c = Some Time) cs = [\<lparr> name = t, alias_name = None, hint = Some Time \<rparr>] \<and>
         filter (\<lambda>c. hint c = Some LogLevel) cs =
           [\<lparr> name = l, alias_name = None, hint = Some LogLevel \<rparr>] \<and>
         filter (\<lambda>c. hint c = Some LogMessage) cs =
           [\<lparr> name = m, alias_name = None, hint = Some LogMessage \<rparr>] \<and>
         filter noOwnBox cs = filter noOwnBox old"
  unfolding assms
  by (simp add: filter_hint_noOwnBox) (simp add: noOwnBox_def)

text \<open>
  C7. After any renders, when the model of a render has the flag enabled with a known
  version and the render before had the flag off or another version, the rule leaves
  exactly one Time-, one LogLevel- and one LogMessage-hinted column, named as the
  version fixes, whatever columns the model carried; its other columns stay. The same
  holds at mount with the flag enabled. A following render with the same flag and
  version is left as it is.
\<close>

theorem otel_enabling_overwrites:
  assumes "versions version = Some (t, l, m)"
    and "LogsQueryBuilderState.otelEnabled (logs_builderState opts)"
    and "LogsQueryBuilderState.otelVersion (logs_builderState opts) = version"
    and "\<not> (LogsQueryBuilderState.otelEnabled (logs_builderState prev) \<and>
           LogsQueryBuilderState.otelVersion (logs_builderState prev) = version)"
    and "LogsQueryBuilderState.otelEnabled (logs_builderState again)"
    and "LogsQueryBuilderState.otelVersion (logs_builderState again) = version"
  shows "filter (\<lambda>c. hint c = Some Time)
           (or_default (columns (last (logs_useOtelColumns_run versions lastDeps (history @ [prev, opts])))) []) =
           [\<lparr> name = t, alias_name = None, hint = Some Time \<rparr>] \<and>
         filter (\<lambda>c. hint c = Some LogLevel)
           (or_default (columns (last (logs_useOtelColumns_run versions lastDeps (history @ [prev, opts])))) []) =
           [\<lparr> name = l, alias_name = None, hint = Some LogLevel \<rparr>] \<and>
         filter (\<lambda>c. hint c = Some LogMessage)
           (or_default (columns (last (logs_useOtelColumns_run versions lastDeps (history @ [prev, opts])))) []) =
           [\<lparr> name = m, alias_name = None, hint = Some LogMessage \<rparr>] \<and>
         filter noOwnBox
           (or_default (columns (last (logs_useOtelColumns_run versions lastDeps (history @ [prev, opts])))) []) =
           filter noOwnBox (or_default (columns opts) []) \<and>
         filter (\<lambda>c. hint c = Some Time)
           (or_default (columns (last (logs_useOtelColumns_run versions None [opts]))) []) =
           [\<lparr> name = t, alias_name = None, hint = Some Time \<rparr>] \<and>
         filter (\<lambda>c. hint c = Some LogLevel)
           (or_default (columns (last (logs_useOtelColumns_run versions None [opts]))) []) =
           [\<lparr> name = l, alias_name = None, hint = Some LogLevel \<rparr>] \<and>
         filter (\<lambda>c. hint c = Some LogMessage)
           (or_default (columns (last (logs_useOtelColumns_run versions None [opts]))) []) =
           [\<lparr> name = m, alias_name = None, hint = Some LogMessage \<rparr>] \<and>
         last (logs_useOtelColumns_run versions lastDeps (history @ [opts, again])) = again"
proof -
  have d: "Some (LogsQueryBuilderState.otelEnabled (logs_builderState prev),
              LogsQueryBuilderState.otelVersion (logs_builderState prev)) \<noteq> Some (True, version)"
    using assms(4) by auto
  note a = otel_three_columns [OF logs_useOtelColumns_fires [of versions, OF assms(1-3) d],
      folded logs_useOtelColumns_run_last [of versions lastDeps history prev opts]]
  have n: "None \<noteq> Some (True, version)" by simp
  have r: "last (logs_useOtelColumns_run versions None [opts]) =
      fst (logs_useOtelColumns versions None opts)"
    by (simp split: prod.splits)
  note b = otel_three_columns [OF logs_useOtelColumns_fires [of versions, OF assms(1-3) n], folded r]
  have c: "last (logs_useOtelColumns_run versions lastDeps (history @ [opts, again])) = again"
    using assms(2,3,5,6)
    by (simp add: logs_useOtelColumns_run_last logs_useOtelColumns_def useOtelColumns_def)
  from a b c show ?thesis by blast
qed

text \<open>
  The flag on at mount, switched off and enabled again on a model whose Time column is
  \<^verbatim>\<open>timestamp\<close>: after re-enabling the hinted columns are the version's.
\<close>

theorem otel_enabling_overwrites_witness:
  "getColumnByHint (otelOptions True ''v1'') Time =
     Some \<lparr> name = ''timestamp'', alias_name = None, hint = Some Time \<rparr> \<and>
   filter (\<lambda>c. hint c = Some Time)
     (or_default (columns (last (logs_useOtelColumns_run oneVersion None
        [otelOptions True ''v1'', otelOptions False ''v1'', otelOptions True ''v1'']))) []) =
     [\<lparr> name = ''Timestamp'', alias_name = None, hint = Some Time \<rparr>] \<and>
   filter (\<lambda>c. hint c = Some LogMessage)
     (or_default (columns (last (logs_useOtelColumns_run oneVersion None
        [otelOptions True ''v1'', otelOptions False ''v1'', otelOptions True ''v1'']))) []) =
     [\<lparr> name = ''Body'', alias_name = None, hint = Some LogMessage \<rparr>]"
proof -
  have v: "oneVersion ''v1'' = Some (''Timestamp'', ''SeverityText'', ''Body'')"
    by (simp add: oneVersion_def)
  have e: "LogsQueryBuilderState.otelEnabled (logs_builderState (otelOptions True ''v1''))"
    and w: "LogsQueryBuilderState.otelVersion (logs_builderState (otelOptions True ''v1'')) = ''v1''"
    and p: "\<not> (LogsQueryBuilderState.otelEnabled (logs_builderState (otelOptions False ''v1'')) \<and>
           LogsQueryBuilderState.otelVersion (logs_builderState (otelOptions False ''v1'')) = ''v1'')"
    by (simp_all add: logs_builderState_def otelOptions_def or_default_def)
  have g: "getColumnByHint (otelOptions True ''v1'') Time =
     Some \<lparr> name = ''timestamp'', alias_name = None, hint = Some Time \<rparr>"
    by (simp add: getColumnByHint_def otelOptions_def timeOptions_def)
  from otel_enabling_overwrites [of oneVersion, OF v e w p e w, of None "[otelOptions True ''v1'']"] g
  show ?thesis by simp
qed

subsection \<open>The default time column rule\<close>

lemma defaultTime_quiet:
  "\<not> fresh st \<Longrightarrow> lastTable st = tbl \<Longrightarrow> list_all (\<lambda>r. seenTable r = tbl) rs \<Longrightarrow>
   defaultTime_run isDefaultTime st rs = replicate (length rs) None"
proof (induction rs arbitrary: st)
  case Nil
  show ?case by simp
next
  case (Cons r rs)
  obtain proposal st' where s: "useDefaultTimeColumn isDefaultTime st (seenColumns r) (seenTable r)
      (seenTimeColumn r) (seenOtelEnabled r) = (proposal, st')"
    by (cases "useDefaultTimeColumn isDefaultTime st (seenColumns r) (seenTable r)
      (seenTimeColumn r) (seenOtelEnabled r)")
  from Cons.prems have t: "seenTable r = tbl" and rest: "list_all (\<lambda>r. seenTable r = tbl) rs"
    by simp_all
  from s Cons.prems(1,2) t have p: "proposal = None" and f: "\<not> fresh st'" and l: "lastTable st' = tbl"
    by (auto simp add: useDefaultTimeColumn_def split: if_splits)
  from Cons.IH [OF f l rest] s p show ?case by simp
qed

lemma defaultTime_fires:
  assumes "fresh st \<or> seenTable r \<noteq> lastTable st"
    and "seenTimeColumn r = None" and "\<not> seenOtelEnabled r"
    and "find isDefaultTime (seenColumns r) = Some c"
    and "list_all (\<lambda>r'. seenTable r' = seenTable r) rs"
  shows "defaultTime_run isDefaultTime st (r # rs) =
           Some \<lparr> name = columnName c, alias_name = None, hint = Some Time \<rparr> #
             replicate (length rs) None"
proof -
  from assms(4) have ne: "seenColumns r \<noteq> []" by auto
  have s: "useDefaultTimeColumn isDefaultTime st (seenColumns r) (seenTable r) (seenTimeColumn r)
      (seenOtelEnabled r) =
      (Some \<lparr> name = columnName c, alias_name = None, hint = Some Time \<rparr>,
       \<lparr> fresh = False, lastTable = seenTable r \<rparr>)"
    using assms(1-4) ne by (auto simp add: useDefaultTimeColumn_def hintedColumn_def)
  have q: "defaultTime_run isDefaultTime \<lparr> fresh = False, lastTable = seenTable r \<rparr> rs =
      replicate (length rs) None"
    by (rule defaultTime_quiet [OF _ _ assms(5)]) simp_all
  show ?thesis by (simp add: s q)
qed

lemma defaultTime_waits:
  assumes "fresh st"
    and "list_all (\<lambda>w. seenColumns w = [] \<and> seenTimeColumn w = None) waiting"
    and "\<And>st'. fresh st' \<Longrightarrow> defaultTime_run isDefaultTime st' rest = out"
  shows "defaultTime_run isDefaultTime st (waiting @ rest) = replicate (length waiting) None @ out"
  using assms(1,2)
proof (induction waiting arbitrary: st)
  case Nil
  then show ?case by (simp add: assms(3))
next
  case (Cons w waiting)
  from Cons.prems have e: "seenColumns w = []" and n: "seenTimeColumn w = None"
    and rest: "list_all (\<lambda>w. seenColumns w = [] \<and> seenTimeColumn w = None) waiting"
    by simp_all
  have s: "useDefaultTimeColumn isDefaultTime st (seenColumns w) (seenTable w) (seenTimeColumn w)
      (seenOtelEnabled w) = (None, \<lparr> fresh = True, lastTable = seenTable w \<rparr>)"
    using Cons.prems(1) by (simp add: useDefaultTimeColumn_def e n)
  have f: "fresh \<lparr> fresh = True, lastTable = seenTable w \<rparr>" by simp
  from Cons.IH [OF f rest] show ?case by (simp add: s)
qed

text \<open>
  C8. On a newly created query: over renders in which the catalog has not arrived and no
  Time column is set the rule proposes nothing and stays ready; in the first render with
  the flag disabled, no Time column and a catalog holding a default time column it
  proposes the first such column of the catalog, under its name and with the hint Time;
  over all further renders of the same table it proposes nothing, whatever the Time box
  holds then (filled or cleared by the user). One proposal in the whole run.
\<close>

theorem default_time_proposed_once:
  assumes "list_all (\<lambda>w. seenColumns w = [] \<and> seenTimeColumn w = None) waiting"
    and "seenTimeColumn r = None" and "\<not> seenOtelEnabled r"
    and "find isDefaultTime (seenColumns r) = Some c"
    and "list_all (\<lambda>r'. seenTable r' = seenTable r) rs"
  shows "defaultTime_run isDefaultTime (useDefaultTimeColumn_mount True tbl) (waiting @ r # rs) =
           replicate (length waiting) None @
           Some \<lparr> name = columnName c, alias_name = None, hint = Some Time \<rparr> #
           replicate (length rs) None \<and>
         isDefaultTime c \<and> c \<in> set (seenColumns r) \<and>
         proposals (defaultTime_run isDefaultTime (useDefaultTimeColumn_mount True tbl) (waiting @ r # rs)) = 1"
proof -
  have f: "fresh (useDefaultTimeColumn_mount True tbl)"
    by (simp add: useDefaultTimeColumn_mount_def)
  have run: "defaultTime_run isDefaultTime (useDefaultTimeColumn_mount True tbl) (waiting @ r # rs) =
           replicate (length waiting) None @
           Some \<lparr> name = columnName c, alias_name = None, hint = Some Time \<rparr> #
           replicate (length rs) None"
    using f assms(1)
  proof (rule defaultTime_waits)
    fix st' :: DefaultTimeState
    assume "fresh st'"
    then have "fresh st' \<or> seenTable r \<noteq> lastTable st'" by simp
    then show "defaultTime_run isDefaultTime st' (r # rs) =
           Some \<lparr> name = columnName c, alias_name = None, hint = Some Time \<rparr> #
             replicate (length rs) None"
      using assms(2-5) by (rule defaultTime_fires)
  qed
  from assms(4) have m: "isDefaultTime c \<and> c \<in> set (seenColumns r)"
    by (auto simp add: find_Some_iff)
  have "proposals (replicate (length waiting) None @
           Some \<lparr> name = columnName c, alias_name = None, hint = Some Time \<rparr> #
           replicate (length rs) None) = 1"
    by (simp add: proposals_def)
  with run m show ?thesis by simp
qed

text \<open>
  A new query whose catalog arrives in the second render: \<^verbatim>\<open>timestamp\<close> is proposed
  there, and not again after the user has cleared the Time box in the fourth.
\<close>

theorem default_time_proposed_once_witness:
  "defaultTime_run isTimestamp (useDefaultTimeColumn_mount True ''logs'')
     [\<lparr> seenColumns = [], seenTable = ''logs'', seenTimeColumn = None, seenOtelEnabled = False \<rparr>,
      \<lparr> seenColumns = logsCatalog, seenTable = ''logs'', seenTimeColumn = None, seenOtelEnabled = False \<rparr>,
      \<lparr> seenColumns = logsCatalog, seenTable = ''logs'',
        seenTimeColumn = Some \<lparr> name = ''timestamp'', alias_name = None, hint = Some Time \<rparr>,
        seenOtelEnabled = False \<rparr>,
      \<lparr> seenColumns = logsCatalog, seenTable = ''logs'', seenTimeColumn = None, seenOtelEnabled = False \<rparr>]
   = [None, Some \<lparr> name = ''timestamp'', alias_name = None, hint = Some Time \<rparr>, None, None]"
proof -
  have c: "find isTimestamp logsCatalog =
      Some \<lparr> columnName = ''timestamp'', columnType = ''DateTime'' \<rparr>"
    by (simp add: logsCatalog_def isTimestamp_def)
  show ?thesis
    using default_time_proposed_once [of
      "[\<lparr> seenColumns = [], seenTable = ''logs'', seenTimeColumn = None, seenOtelEnabled = False \<rparr>]"
      "\<lparr> seenColumns = logsCatalog, seenTable = ''logs'', seenTimeColumn = None, seenOtelEnabled = False \<rparr>"
      isTimestamp "\<lparr> columnName = ''timestamp'', columnType = ''DateTime'' \<rparr>"
      "[\<lparr> seenColumns = logsCatalog, seenTable = ''logs'',
        seenTimeColumn = Some \<lparr> name = ''timestamp'', alias_name = None, hint = Some Time \<rparr>,
        seenOtelEnabled = False \<rparr>,
      \<lparr> seenColumns = logsCatalog, seenTable = ''logs'', seenTimeColumn = None, seenOtelEnabled = False \<rparr>]"]
      c
    by simp
qed

subsection \<open>The default filters and ordering rule\<close>

lemma defaultFilters_settled:
  "defaultFilters_run timeRange True rs = replicate (length rs) None"
  by (induction rs) (simp_all add: useDefaultFilters_def)

lemma defaultFilters_at_most_once:
  "proposals (defaultFilters_run timeRange settled rs) \<le> 1"
proof (induction rs arbitrary: settled)
  case Nil
  show ?case by (simp add: proposals_def)
next
  case (Cons r rs)
  show ?case
  proof (cases "useDefaultFilters timeRange settled (shownTable r) (shownTimeColumn r) (shownFilters r)
             (shownOrderBy r)")
    case (Pair proposal settled')
    show ?thesis
    proof (cases proposal)
      case None
      with Pair Cons.IH [of settled'] show ?thesis by (simp add: proposals_def)
    next
      case (Some p)
      with Pair have "settled'"
        by (auto simp add: useDefaultFilters_def split: if_splits option.splits)
      with Pair Some show ?thesis
        by (simp add: defaultFilters_settled proposals_def)
    qed
  qed
qed

lemma defaultFilters_waits:
  "list_all (\<lambda>w. shownTimeColumn w = None \<and> shownFilters w = [] \<and> shownOrderBy w = []) waiting \<Longrightarrow>
   defaultFilters_run timeRange False (waiting @ rest) =
     replicate (length waiting) None @ defaultFilters_run timeRange False rest"
  by (induction waiting) (simp_all add: useDefaultFilters_def)

text \<open>
  C9. From mount, over renders with no Time column, no filter and no ordering the rule
  proposes nothing and stays ready; in the first render where a Time column is there
  and both are still empty it proposes one filter, the time-range restriction on that
  column, and one ordering, that column descending; after that it proposes nothing.
  Over any run from any state it makes at most one proposal, and from a render that
  shows a filter or an ordering on it makes none, even when both are empty again.
\<close>

theorem default_filters_proposed_once:
  assumes "list_all (\<lambda>w. shownTimeColumn w = None \<and> shownFilters w = [] \<and> shownOrderBy w = [])
      waiting"
    and "shownTimeColumn r = Some c" and "shownFilters r = []" and "shownOrderBy r = []"
  shows "defaultFilters_run (operator, operands, condition) useDefaultFilters_mount (waiting @ r # rs) =
           replicate (length waiting) None @
           Some ([Filter (name c) operator operands condition], [OrderBy (name c) DESC]) #
           replicate (length rs) None \<and>
         proposals (defaultFilters_run (operator, operands, condition) settled any) \<le> 1 \<and>
         (shownFilters u \<noteq> [] \<or> shownOrderBy u \<noteq> [] \<longrightarrow>
            defaultFilters_run (operator, operands, condition) settled (u # rs) =
              replicate (Suc (length rs)) None)"
proof -
  have s: "useDefaultFilters (operator, operands, condition) False (shownTable r) (shownTimeColumn r)
      (shownFilters r) (shownOrderBy r) =
      (Some ([Filter (name c) operator operands condition], [OrderBy (name c) DESC]), True)"
    using assms(2-4) by (simp add: useDefaultFilters_def defaultFilter_def)
  have a: "defaultFilters_run (operator, operands, condition) useDefaultFilters_mount (waiting @ r # rs) =
           replicate (length waiting) None @
           Some ([Filter (name c) operator operands condition], [OrderBy (name c) DESC]) #
           replicate (length rs) None"
    by (simp add: useDefaultFilters_mount_def defaultFilters_waits [OF assms(1)] s
        defaultFilters_settled)
  have b: "shownFilters u \<noteq> [] \<or> shownOrderBy u \<noteq> [] \<longrightarrow>
            defaultFilters_run (operator, operands, condition) settled (u # rs) =
              replicate (Suc (length rs)) None"
    by (auto simp add: useDefaultFilters_def defaultFilters_settled)
  from a b defaultFilters_at_most_once [of "(operator, operands, condition)" settled any]
  show ?thesis by blast
qed

text \<open>
  The Time column \<^verbatim>\<open>ts\<close> appears in the second render of an empty query: the default
  filter and ordering on \<^verbatim>\<open>ts\<close> are proposed there, once. With an ordering added before
  and cleared since, nothing is proposed.
\<close>

theorem default_filters_proposed_once_witness:
  "defaultFilters_run (''WITHIN'', [''1 hour''], ''AND'') useDefaultFilters_mount
     [\<lparr> shownTable = ''logs'', shownTimeColumn = None, shownFilters = [], shownOrderBy = [] \<rparr>,
      \<lparr> shownTable = ''logs'',
        shownTimeColumn = Some \<lparr> name = ''ts'', alias_name = None, hint = Some Time \<rparr>,
        shownFilters = [], shownOrderBy = [] \<rparr>,
      \<lparr> shownTable = ''logs'',
        shownTimeColumn = Some \<lparr> name = ''ts'', alias_name = None, hint = Some Time \<rparr>,
        shownFilters = [], shownOrderBy = [] \<rparr>] =
     [None, Some ([Filter ''ts'' ''WITHIN'' [''1 hour''] ''AND''], [OrderBy ''ts'' DESC]), None] \<and>
   defaultFilters_run (''WITHIN'', [''1 hour''], ''AND'') useDefaultFilters_mount
     [\<lparr> shownTable = ''logs'', shownTimeColumn = None, shownFilters = [],
        shownOrderBy = [OrderBy ''body'' ASC] \<rparr>,
      \<lparr> shownTable = ''logs'',
        shownTimeColumn = Some \<lparr> name = ''ts'', alias_name = None, hint = Some Time \<rparr>,
        shownFilters = [], shownOrderBy = [] \<rparr>] = [None, None]"
proof -
  have w: "list_all (\<lambda>w. shownTimeColumn w = None \<and> shownFilters w = [] \<and> shownOrderBy w = [])
      [\<lparr> shownTable = ''logs'', shownTimeColumn = None, shownFilters = [], shownOrderBy = [] \<rparr>]"
    by simp
  note th = default_filters_proposed_once [OF w,
      of "\<lparr> shownTable = ''logs'',
        shownTimeColumn = Some \<lparr> name = ''ts'', alias_name = None, hint = Some Time \<rparr>,
        shownFilters = [], shownOrderBy = [] \<rparr>"
      "\<lparr> name = ''ts'', alias_name = None, hint = Some Time \<rparr>"
      "''WITHIN''" "[''1 hour'']" "''AND''"
      "[\<lparr> shownTable = ''logs'',
        shownTimeColumn = Some \<lparr> name = ''ts'', alias_name = None, hint = Some Time \<rparr>,
        shownFilters = [], shownOrderBy = [] \<rparr>]"
      useDefaultFilters_mount "[]"
      "\<lparr> shownTable = ''logs'', shownTimeColumn = None, shownFilters = [],
        shownOrderBy = [OrderBy ''body'' ASC] \<rparr>"]
  from th show ?thesis by simp
qed

end
